theory Spec2Isabelle
  imports Complex_Main "HOL-Library.Multiset" "HOL-Library.Log_Nat"
begin

section \<open>Data model\<close>

text \<open>
  A browser \<open>File\<close> as the components read it: \<open>file.name\<close>, \<open>file.type\<close> and
  \<open>file.size\<close> (a byte count). Numbers that JavaScript keeps as doubles are modelled
  as the reals they denote: the comparisons of the validator are exact on them, and the
  arithmetic of the classification is rounded (see the section on double-precision
  arithmetic).
\<close>

record File =
  file_name :: string
  file_type :: string
  file_size :: nat

text \<open>\<open>URL.createObjectURL(file)\<close>: a transient reference to the blob it was made from.\<close>

datatype object_url = ObjectURL File

text \<open>
  \<open>HTMLMediaElement.duration\<close>: a number of seconds, \<open>Infinity\<close> for an unbounded
  stream, or \<open>NaN\<close>. Every comparison with \<open>NaN\<close> is false.
\<close>

datatype duration = Seconds real | Unbounded | NotANumber

fun duration_gt :: "duration \<Rightarrow> real \<Rightarrow> bool" where
  "duration_gt (Seconds d) x = (d > x)"
| "duration_gt Unbounded x = True"
| "duration_gt NotANumber x = False"

fun duration_lt :: "duration \<Rightarrow> real \<Rightarrow> bool" where
  "duration_lt (Seconds d) x = (d < x)"
| "duration_lt Unbounded x = False"
| "duration_lt NotANumber x = False"

text \<open>
  What the \<open>Audio\<close> element reports after \<open>audio.src = url\<close>: the
  \<open>loadedmetadata\<close> event (with \<open>audio.duration\<close>), the \<open>error\<close> event, or
  neither, in which case the promise of \<open>validateFile\<close> never settles.
\<close>

datatype media_event = LoadedMetadata duration | ErrorEvent | NoEvent

text \<open>The entries of \<open>EmotionResult\<close> and of the history (\<open>EmotionPrediction\<close>).\<close>

record emotion_entry =
  emotion :: string
  confidence :: real

record EmotionResult =
  primary :: emotion_entry
  all :: "emotion_entry list"

record EmotionPrediction =
  pred_emotion :: string
  pred_confidence :: real
  timestamp :: nat
  audioName :: string

section \<open>The upload validator (\<open>AudioUpload\<close>)\<close>

text \<open>
  The five rejections of \<open>validateFile\<close>. \<open>message\<close> is the text the source passes to
  \<open>setError\<close> on each of them.
\<close>

datatype ValidationError = UnsupportedFormat | FileTooLarge | DecodeFailed | TooLong | TooShort

fun message :: "ValidationError \<Rightarrow> string" where
  "message UnsupportedFormat = ''Unsupported file format. Please upload WAV, MP3, or FLAC files.''"
| "message FileTooLarge = ''File is too large. Maximum size is 50MB.''"
| "message TooLong = ''Audio is too long. Maximum duration is 5 minutes.''"
| "message TooShort = ''Audio is too short. Minimum duration is 0.5 seconds.''"
| "message DecodeFailed = ''Failed to load audio file. Please try another file.''"

declare message.simps [simp del]

definition ACCEPTED_FORMATS :: "string list" where
  "ACCEPTED_FORMATS = [''audio/wav'', ''audio/mpeg'', ''audio/mp3'', ''audio/flac'', ''audio/x-flac'']"

definition MAX_FILE_SIZE :: nat where
  "MAX_FILE_SIZE = 50 * 1024 * 1024"

definition MAX_DURATION :: real where
  "MAX_DURATION = 300"

text \<open>
  \<open>file.name.match(/\.(wav|mp3|flac)$/i)\<close>: the name ends with one of the three
  extensions, letters compared without case. Only ASCII letters fold onto the ASCII
  letters of the pattern.
\<close>

definition lower_char :: "char \<Rightarrow> char" where
  "lower_char c =
     (let n = (of_char c :: nat) in if 65 \<le> n \<and> n \<le> 90 then char_of (n + 32) else c)"

definition ends_with :: "string \<Rightarrow> string \<Rightarrow> bool" where
  "ends_with s ext =
     (length ext \<le> length s \<and> map lower_char (drop (length s - length ext) s) = ext)"

definition matches_extension :: "string \<Rightarrow> bool" where
  "matches_extension n = (ends_with n ''.wav'' \<or> ends_with n ''.mp3'' \<or> ends_with n ''.flac'')"

record upload_state =
  isDragging :: bool
  selectedFile :: "File option"
  upload_error :: "string option"

text \<open>
  \<open>validateFile\<close>. The first component of the result is the boolean the promise
  resolves to, \<open>None\<close> when it never settles; the second is the component state left
  behind by the calls of \<open>setError\<close>. \<open>probe\<close> is the browser's decoder.
\<close>

definition validateFile ::
  "(File \<Rightarrow> media_event) \<Rightarrow> File \<Rightarrow> upload_state \<Rightarrow> bool option \<times> upload_state" where
  "validateFile probe f st0 =
     (let st = st0\<lparr>upload_error := None\<rparr> in
      if file_type f \<notin> set ACCEPTED_FORMATS \<and> \<not> matches_extension (file_name f)
      then (Some False, st\<lparr>upload_error := Some (message UnsupportedFormat)\<rparr>)
      else if file_size f > MAX_FILE_SIZE
      then (Some False, st\<lparr>upload_error := Some (message FileTooLarge)\<rparr>)
      else (case probe f of
              LoadedMetadata d \<Rightarrow>
                if duration_gt d MAX_DURATION
                then (Some False, st\<lparr>upload_error := Some (message TooLong)\<rparr>)
                else if duration_lt d (1 / 2)
                then (Some False, st\<lparr>upload_error := Some (message TooShort)\<rparr>)
                else (Some True, st)
            | ErrorEvent \<Rightarrow> (Some False, st\<lparr>upload_error := Some (message DecodeFailed)\<rparr>)
            | NoEvent \<Rightarrow> (None, st)))"

section \<open>The application state (\<open>App\<close>)\<close>

datatype view = HomeView | UploadView | RecordView

record app_state =
  darkMode :: bool
  current_view :: view
  audioFile :: "File option"
  audioUrl :: "object_url option"
  isAnalyzing :: bool
  result :: "EmotionResult option"
  history :: "EmotionPrediction list"

definition handleAudioSelected :: "File \<Rightarrow> object_url \<Rightarrow> app_state \<Rightarrow> app_state" where
  "handleAudioSelected f url app = app\<lparr>audioFile := Some f, audioUrl := Some url, result := None\<rparr>"

text \<open>
  \<open>handleFile\<close> of \<open>AudioUpload\<close>, with the \<open>onAudioSelected\<close> it is given by \<open>App\<close>
  (\<open>handleAudioSelected\<close>). When the validation resolves to \<open>false\<close>, or never
  resolves, nothing runs after the \<open>await\<close>.
\<close>

definition handleFile ::
  "(File \<Rightarrow> media_event) \<Rightarrow> File \<Rightarrow> upload_state \<times> app_state \<Rightarrow> upload_state \<times> app_state" where
  "handleFile probe f s =
     (case validateFile probe f (fst s) of
        (Some True, st) \<Rightarrow> (st\<lparr>selectedFile := Some f\<rparr>, handleAudioSelected f (ObjectURL f) (snd s))
      | (_, st) \<Rightarrow> (st, snd s))"

section \<open>Double-precision arithmetic\<close>

text \<open>
  A JavaScript number is an IEEE 754 double, and \<open>+\<close>, \<open>-\<close> and \<open>*\<close> return the exact
  result rounded to the nearest double, ties going to the even mantissa. Doubles are
  modelled as the reals they denote, and every arithmetic operation of the source is
  followed by the rounding \<open>fl\<close>.

  \<open>round_even\<close> rounds to the nearest integer, ties to even. \<open>binade x\<close> is the
  exponent \<open>k\<close> with \<open>2^k \<le> |x| < 2^(k+1)\<close>, computed from the bit length of the
  integer part of \<open>|x|\<close>, or of \<open>1 / |x|\<close> below 1. The doubles of that binade are the
  multiples of \<open>2^(k-52)\<close>; below \<open>2^(-1022)\<close> (the subnormal range) the spacing stays
  \<open>2^(-1074)\<close>. Results of magnitude \<open>2^1024\<close> or more, which overflow to
  \<open>Infinity\<close>, do not arise here: every value computed lies between 0 and 100.
\<close>

definition round_even :: "real \<Rightarrow> int" where
  "round_even x =
     (let f = \<lfloor>x\<rfloor>; d = x - of_int f
      in if d < 1 / 2 then f else if 1 / 2 < d then f + 1 else if even f then f else f + 1)"

definition binade :: "real \<Rightarrow> int" where
  "binade x =
     (if 1 \<le> \<bar>x\<bar> then bitlen \<lfloor>\<bar>x\<bar>\<rfloor> - 1 else - bitlen (\<lceil>1 / \<bar>x\<bar>\<rceil> - 1))"

definition ulp_exponent :: "real \<Rightarrow> int" where
  "ulp_exponent x = max (binade x) (- 1022) - 52"

definition fl :: "real \<Rightarrow> real" where
  "fl x = of_int (round_even (x / 2 powi ulp_exponent x)) * 2 powi ulp_exponent x"

text \<open>The reals that are doubles: those that rounding leaves alone, below \<open>2^1024\<close>.\<close>

definition is_double :: "real \<Rightarrow> bool" where
  "is_double x = (fl x = x \<and> \<bar>x\<bar> < 2 ^ 1024)"

section \<open>The mock classification (\<open>handleAnalyze\<close>)\<close>

definition emotions :: "string list" where
  "emotions = [''happy'', ''sad'', ''angry'', ''fearful'', ''neutral'', ''surprised'', ''disgusted'']"

text \<open>
  \<open>rnd i\<close> is the value of the \<open>i\<close>-th call of \<open>Math.random()\<close> made while the result is
  built (counted from 0): call 0 picks the primary emotion, call 1 its confidence, and
  \<open>map\<close> makes one call per remaining emotion, in list order. \<open>Math.random()\<close> returns
  a double in \<open>[0, 1)\<close>; the product with \<open>emotions.length\<close> is rounded before
  \<open>Math.floor\<close>, and stays below 7 because the largest double below 1 is
  \<open>1 - 2^(-53)\<close> (lemma \<open>random_index\<close>).
\<close>

definition primaryEmotion :: "(nat \<Rightarrow> real) \<Rightarrow> string" where
  "primaryEmotion rnd = emotions ! nat \<lfloor>fl (rnd 0 * real (length emotions))\<rfloor>"

text \<open>\<open>65 + Math.random() * 30\<close>: the product is rounded, then the sum.\<close>

definition primaryConfidence :: "(nat \<Rightarrow> real) \<Rightarrow> real" where
  "primaryConfidence rnd = fl (65 + fl (rnd 1 * 30))"

text \<open>
  \<open>.sort((a, b) => b.confidence - a.confidence)\<close>. The comparator is the rounded
  difference. \<open>Array.prototype.sort\<close> is stable: an element goes before another when
  the comparator is negative, after it when positive, and keeps its place relative to
  it when zero. For a comparator that is a consistent order the result does not depend
  on the algorithm; it is computed here by inserting the elements, from the last to the
  first, each before the first element it does not have to follow.
\<close>

definition compare_desc :: "emotion_entry \<Rightarrow> emotion_entry \<Rightarrow> real" where
  "compare_desc a b = fl (confidence b - confidence a)"

fun insert_by :: "('a \<Rightarrow> 'a \<Rightarrow> real) \<Rightarrow> 'a \<Rightarrow> 'a list \<Rightarrow> 'a list" where
  "insert_by cmp x [] = [x]"
| "insert_by cmp x (y # ys) = (if cmp x y \<le> 0 then x # y # ys else y # insert_by cmp x ys)"

definition sort_by :: "('a \<Rightarrow> 'a \<Rightarrow> real) \<Rightarrow> 'a list \<Rightarrow> 'a list" where
  "sort_by cmp xs = foldr (insert_by cmp) xs []"

definition sort_desc :: "emotion_entry list \<Rightarrow> emotion_entry list" where
  "sort_desc xs = sort_by compare_desc xs"

text \<open>
  \<open>Math.random() * (100 - primaryConfidence)\<close>: the difference is rounded, then the
  product.
\<close>

definition otherEmotions :: "(nat \<Rightarrow> real) \<Rightarrow> emotion_entry list" where
  "otherEmotions rnd =
     sort_desc
       (map (\<lambda>(i, e). \<lparr>emotion = e,
                        confidence = fl (rnd (2 + i) * fl (100 - primaryConfidence rnd))\<rparr>)
          (enumerate 0 (filter (\<lambda>e. e \<noteq> primaryEmotion rnd) emotions)))"

definition mockResult :: "(nat \<Rightarrow> real) \<Rightarrow> EmotionResult" where
  "mockResult rnd =
     \<lparr>primary = \<lparr>emotion = primaryEmotion rnd, confidence = primaryConfidence rnd\<rparr>,
      all = sort_desc
              (\<lparr>emotion = primaryEmotion rnd, confidence = primaryConfidence rnd\<rparr> # otherEmotions rnd)\<rparr>"

text \<open>The updater given to \<open>setHistory\<close>: \<open>[entry, ...prev.slice(0, 9)]\<close>.\<close>

definition record_history :: "EmotionPrediction \<Rightarrow> EmotionPrediction list \<Rightarrow> EmotionPrediction list" where
  "record_history entry prev = entry # take 9 prev"

text \<open>
  \<open>handleAnalyze\<close> in its two halves. \<open>handleAnalyze_begin\<close> is the part before the
  \<open>await\<close>; it returns the \<open>audioFile\<close> its closure holds, \<open>None\<close> when the function
  returned at once. \<open>handleAnalyze_resume\<close> is the part after the two-second timeout:
  it runs on whatever the state is then, with the \<open>audioFile\<close> of the closure;
  \<open>now\<close> is \<open>new Date()\<close>.
\<close>

definition handleAnalyze_begin :: "app_state \<Rightarrow> File option \<times> app_state" where
  "handleAnalyze_begin app =
     (case audioFile app of
        None \<Rightarrow> (None, app)
      | Some f \<Rightarrow> (Some f, app\<lparr>isAnalyzing := True, result := None\<rparr>))"

definition handleAnalyze_resume :: "File \<Rightarrow> (nat \<Rightarrow> real) \<Rightarrow> nat \<Rightarrow> app_state \<Rightarrow> app_state" where
  "handleAnalyze_resume f rnd now app =
     app\<lparr>result := Some (mockResult rnd),
         isAnalyzing := False,
         history :=
           record_history
             \<lparr>pred_emotion = primaryEmotion rnd, pred_confidence = primaryConfidence rnd,
              timestamp = now, audioName = file_name f\<rparr>
             (history app)\<rparr>"

definition handleReset :: "app_state \<Rightarrow> app_state" where
  "handleReset app = app\<lparr>audioFile := None, audioUrl := None, result := None, current_view := HomeView\<rparr>"

text \<open>
  The primary entry as the specification defines it, for comparison with the one the
  code picks: the entry with maximum confidence, ties broken by the declaration order
  of the vocabulary. The entries are taken label by label in the order of \<open>emotions\<close>,
  and a later entry replaces the best one so far only when its confidence is strictly
  larger.
\<close>

definition by_vocabulary :: "emotion_entry list \<Rightarrow> emotion_entry list" where
  "by_vocabulary entries = concat (map (\<lambda>l. filter (\<lambda>e. emotion e = l) entries) emotions)"

fun first_max :: "emotion_entry \<Rightarrow> emotion_entry list \<Rightarrow> emotion_entry" where
  "first_max best [] = best"
| "first_max best (e # es) = first_max (if confidence e > confidence best then e else best) es"

definition spec_primary :: "emotion_entry list \<Rightarrow> emotion_entry option" where
  "spec_primary entries =
     (case by_vocabulary entries of [] \<Rightarrow> None | e # es \<Rightarrow> Some (first_max e es))"

section \<open>The capture session (\<open>AudioRecorder\<close>)\<close>

type_synonym chunk = "nat list"

text \<open>
  What the browser holds for the component. A \<open>MediaRecorder\<close> is recording, has had
  \<open>stop()\<close> called with its \<open>stop\<close> event still to be dispatched, or is inactive. An
  interval timer runs the callback built by one call of \<open>startRecording\<close>; the callback
  calls the \<open>stopRecording\<close> of the same render, so it reads the \<open>isRecording\<close> of that
  render, kept here as \<open>closure_isRecording\<close>.
\<close>

datatype recorder_status = Recording | StopQueued | Inactive

record media_recorder =
  rec_stream :: nat
  rec_status :: recorder_status

record interval_timer =
  timer_active :: bool
  closure_isRecording :: bool

text \<open>
  The state variables and refs of the component, then the browser's side: the calls of
  \<open>startRecording\<close> waiting at \<open>await getUserMedia\<close> (each with the \<open>isRecording\<close> of
  its closure), the streams handed out (\<open>True\<close> while their tracks are live), the
  recorders and timers created, and the files passed to \<open>onAudioRecorded\<close>. A stream,
  recorder or timer is named by its position in its list.
\<close>

record recorder_state =
  isRecording :: bool
  recordingTime :: nat
  audioBlob :: "chunk list option"
  recorder_error :: "string option"
  permissionGranted :: bool
  mediaRecorderRef :: "nat option"
  chunksRef :: "chunk list"
  timerRef :: "nat option"
  streamRef :: "nat option"
  pendingStarts :: "bool list"
  streams :: "bool list"
  recorders :: "media_recorder list"
  timers :: "interval_timer list"
  emitted :: "File list"

definition MAX_RECORDING_TIME :: nat where
  "MAX_RECORDING_TIME = 300"

fun show_nat :: "nat \<Rightarrow> string" where
  "show_nat n =
     (if n < 10 then [char_of (48 + n)] else show_nat (n div 10) @ [char_of (48 + n mod 10)])"

declare show_nat.simps [simp del]

definition checkMicrophonePermission :: "bool \<Rightarrow> recorder_state \<Rightarrow> recorder_state" where
  "checkMicrophonePermission granted st =
     (if granted then st\<lparr>permissionGranted := True, recorder_error := None\<rparr>
      else st\<lparr>permissionGranted := False,
              recorder_error :=
                Some ''Microphone access denied. Please allow microphone access to record audio.''\<rparr>)"

text \<open>\<open>startRecording\<close> up to \<open>await navigator.mediaDevices.getUserMedia(...)\<close>.\<close>

definition startRecording_begin :: "bool \<Rightarrow> recorder_state \<Rightarrow> recorder_state" where
  "startRecording_begin c st =
     st\<lparr>recorder_error := None, chunksRef := [], audioBlob := None,
        pendingStarts := pendingStarts st @ [c]\<rparr>"

text \<open>
  The rest of \<open>startRecording\<close>, run when \<open>getUserMedia\<close> fulfils the oldest waiting
  call with a new stream.
\<close>

definition startRecording_resume :: "recorder_state \<Rightarrow> recorder_state" where
  "startRecording_resume st =
     (case pendingStarts st of
        [] \<Rightarrow> st
      | c # cs \<Rightarrow>
          st\<lparr>pendingStarts := cs,
             streams := streams st @ [True],
             streamRef := Some (length (streams st)),
             recorders := recorders st @ [\<lparr>rec_stream = length (streams st), rec_status = Recording\<rparr>],
             mediaRecorderRef := Some (length (recorders st)),
             isRecording := True,
             recordingTime := 0,
             timers := timers st @ [\<lparr>timer_active = True, closure_isRecording = c\<rparr>],
             timerRef := Some (length (timers st))\<rparr>)"

text \<open>The \<open>catch\<close> of \<open>startRecording\<close>, when \<open>getUserMedia\<close> rejects the oldest waiting call.\<close>

definition startRecording_failed :: "recorder_state \<Rightarrow> recorder_state" where
  "startRecording_failed st =
     (case pendingStarts st of
        [] \<Rightarrow> st
      | c # cs \<Rightarrow>
          st\<lparr>pendingStarts := cs,
             recorder_error :=
               Some ''Failed to start recording. Please check your microphone permissions.''\<rparr>)"

text \<open>\<open>MediaRecorder.stop()\<close>: on a recording recorder it queues the \<open>stop\<close> event.\<close>

definition mediaRecorder_stop :: "media_recorder \<Rightarrow> media_recorder" where
  "mediaRecorder_stop r = (if rec_status r = Recording then r\<lparr>rec_status := StopQueued\<rparr> else r)"

text \<open>
  \<open>stopRecording\<close>, as the closure of a render in which \<open>isRecording\<close> was \<open>c\<close>: the
  guard \<open>mediaRecorderRef.current && isRecording\<close> reads the ref at the time of the call
  and \<open>isRecording\<close> from the closure.
\<close>

definition stopRecording :: "bool \<Rightarrow> recorder_state \<Rightarrow> recorder_state" where
  "stopRecording c st =
     (case mediaRecorderRef st of
        None \<Rightarrow> st
      | Some r \<Rightarrow>
          if c then
            (let st1 = st\<lparr>recorders := (recorders st)[r := mediaRecorder_stop (recorders st ! r)],
                         isRecording := False\<rparr>
             in case timerRef st1 of
                  None \<Rightarrow> st1
                | Some t \<Rightarrow>
                    st1\<lparr>timers := (timers st1)[t := (timers st1 ! t)\<lparr>timer_active := False\<rparr>],
                        timerRef := None\<rparr>)
          else st)"

text \<open>\<open>mediaRecorder.ondataavailable\<close>.\<close>

definition ondataavailable :: "chunk \<Rightarrow> recorder_state \<Rightarrow> recorder_state" where
  "ondataavailable d st = (if length d > 0 then st\<lparr>chunksRef := chunksRef st @ [d]\<rparr> else st)"

text \<open>
  \<open>mediaRecorder.onstop\<close> of recorder \<open>r\<close>, dispatched once after its \<open>stop()\<close>;
  \<open>now\<close> is \<open>Date.now()\<close>. The tracks stopped are those of \<open>streamRef.current\<close>.
\<close>

definition onstop :: "nat \<Rightarrow> nat \<Rightarrow> recorder_state \<Rightarrow> recorder_state" where
  "onstop r now st =
     (if r < length (recorders st) \<and> rec_status (recorders st ! r) = StopQueued then
        (let blob = chunksRef st;
             f = \<lparr>file_name = ''recording-'' @ show_nat now @ ''.webm'',
                  file_type = ''audio/webm'',
                  file_size = sum_list (map length blob)\<rparr>;
             st1 = st\<lparr>recorders := (recorders st)[r := (recorders st ! r)\<lparr>rec_status := Inactive\<rparr>],
                      audioBlob := Some blob,
                      emitted := emitted st @ [f]\<rparr>
         in case streamRef st1 of
              None \<Rightarrow> st1
            | Some s \<Rightarrow> st1\<lparr>streams := (streams st1)[s := False]\<rparr>)
      else st)"

text \<open>
  One firing of interval timer \<open>t\<close>: the updater passed to \<open>setRecordingTime\<close>, which
  calls the \<open>stopRecording\<close> of the timer's closure once \<open>prev >= MAX_RECORDING_TIME\<close>.
\<close>

definition timer_tick :: "nat \<Rightarrow> recorder_state \<Rightarrow> recorder_state" where
  "timer_tick t st =
     (if t < length (timers st) \<and> timer_active (timers st ! t) then
        (if recordingTime st \<ge> MAX_RECORDING_TIME
         then stopRecording (closure_isRecording (timers st ! t)) st
         else st\<lparr>recordingTime := recordingTime st + 1\<rparr>)
      else st)"

text \<open>
  The record button, shown while \<open>audioBlob\<close> is null and enabled once permission is
  granted: \<open>onClick={isRecording ? stopRecording : startRecording}\<close>, both taken from
  the current render.
\<close>

definition click_record_button :: "recorder_state \<Rightarrow> recorder_state" where
  "click_record_button st =
     (if audioBlob st \<noteq> None \<or> \<not> permissionGranted st then st
      else if isRecording st then stopRecording (isRecording st) st
      else startRecording_begin (isRecording st) st)"

definition handleClear :: "recorder_state \<Rightarrow> recorder_state" where
  "handleClear st = st\<lparr>audioBlob := None, recordingTime := 0\<rparr>"

datatype recorder_event =
    ClickRecord | ClickClear | MicGranted | MicRejected
  | DataAvailable chunk | Tick nat | StopEvent nat nat

fun recorder_step :: "recorder_event \<Rightarrow> recorder_state \<Rightarrow> recorder_state" where
  "recorder_step ClickRecord st = click_record_button st"
| "recorder_step ClickClear st = handleClear st"
| "recorder_step MicGranted st = startRecording_resume st"
| "recorder_step MicRejected st = startRecording_failed st"
| "recorder_step (DataAvailable d) st = ondataavailable d st"
| "recorder_step (Tick t) st = timer_tick t st"
| "recorder_step (StopEvent r now) st = onstop r now st"

definition run_recorder :: "recorder_event list \<Rightarrow> recorder_state \<Rightarrow> recorder_state" where
  "run_recorder evs st = fold recorder_step evs st"

text \<open>The component after mounting, once the permission check has succeeded.\<close>

definition mounted_recorder :: recorder_state where
  "mounted_recorder =
     checkMicrophonePermission True
       \<lparr>isRecording = False, recordingTime = 0, audioBlob = None, recorder_error = None,
        permissionGranted = False, mediaRecorderRef = None, chunksRef = [], timerRef = None,
        streamRef = None, pendingStarts = [], streams = [], recorders = [], timers = [],
        emitted = []\<rparr>"

section \<open>Example inputs\<close>

definition constant_probe :: "media_event \<Rightarrow> File \<Rightarrow> media_event" where
  "constant_probe ev f = ev"

definition idle_upload :: upload_state where
  "idle_upload = \<lparr>isDragging = False, selectedFile = None, upload_error = None\<rparr>"

definition initial_app :: app_state where
  "initial_app =
     \<lparr>darkMode = False, current_view = HomeView, audioFile = None, audioUrl = None,
      isAnalyzing = False, result = None, history = []\<rparr>"

definition talk_wav :: File where
  "talk_wav = \<lparr>file_name = ''talk.wav'', file_type = ''audio/wav'', file_size = 10 * 1024 * 1024\<rparr>"

definition song_mp3 :: File where
  "song_mp3 = \<lparr>file_name = ''Song.MP3'', file_type = [], file_size = 2048\<rparr>"

definition big_wav :: File where
  "big_wav = \<lparr>file_name = ''big.wav'', file_type = ''audio/wav'', file_size = 60 * 1024 * 1024\<rparr>"

definition big_mp4 :: File where
  "big_mp4 = \<lparr>file_name = ''clip.mp4'', file_type = ''video/mp4'', file_size = 60 * 1024 * 1024\<rparr>"

text \<open>
  Sources of random numbers, all doubles in \<open>[0, 1)\<close>: the constant one half; the
  cycle 1/2, 1/4, ..., 1/256; the cycle 0, 1/8, ..., 7/8; and a source whose first two
  values make both roundings of the classification visible: \<open>0.5714285714285714\<close>,
  whose product with 7 is a tie that rounds up to 4, and \<open>0.9999999999999998\<close>; and a
  cycle of eight doubles as a random number generator returns them, the first being
  \<open>0.6078350083451932\<close>.
\<close>

definition rnd_half :: "nat \<Rightarrow> real" where
  "rnd_half i = 1 / 2"

definition rnd_falling :: "nat \<Rightarrow> real" where
  "rnd_falling i = 1 / 2 ^ Suc (i mod 8)"

definition rnd_rising :: "nat \<Rightarrow> real" where
  "rnd_rising i = real (i mod 8) / 8"

definition rnd_ties :: "nat \<Rightarrow> real" where
  "rnd_ties i = (if i = 0 then 2573485501354569 / 2 ^ 52 else 1 - 1 / 2 ^ 52)"

definition rnd_sample :: "nat \<Rightarrow> real" where
  "rnd_sample i =
     [5474891034172309 / 2 ^ 53,
      6943728343822311 / 2 ^ 53,
      2331504394645659 / 2 ^ 53,
      1349640682625853 / 2 ^ 53,
      6469361112407539 / 2 ^ 53,
      973907677885701 / 2 ^ 50,
      753579761886033 / 2 ^ 51,
      1043041119300167 / 2 ^ 52] ! (i mod 8)"

definition prediction :: "nat \<Rightarrow> EmotionPrediction" where
  "prediction n =
     \<lparr>pred_emotion = ''happy'', pred_confidence = 80, timestamp = n, audioName = ''talk.wav''\<rparr>"

text \<open>
  An analysis of \<open>talk_wav\<close> is outstanding (\<open>handleAnalyze\<close> waits at its \<open>await\<close>)
  and \<open>song_mp3\<close> has been selected in the meantime.
\<close>

definition superseded_app :: app_state where
  "superseded_app =
     handleAudioSelected song_mp3 (ObjectURL song_mp3)
       (snd (handleAnalyze_begin (handleAudioSelected talk_wav (ObjectURL talk_wav) initial_app)))"

text \<open>
  The capture session after a click on the record button and the arrival of the
  stream; the same after 301 firings of its timer; and the session after two clicks
  made before either stream arrived.
\<close>

definition recording_session :: recorder_state where
  "recording_session = run_recorder [ClickRecord, MicGranted] mounted_recorder"

definition overrun_session :: recorder_state where
  "overrun_session = run_recorder (replicate 301 (Tick 0)) recording_session"

definition double_started :: recorder_state where
  "double_started = run_recorder [ClickRecord, ClickRecord, MicGranted, MicGranted] mounted_recorder"

section \<open>Properties of the rounding\<close>

text \<open>
  Rounding fixes the integers and is monotone; \<open>binade\<close> is the exponent its
  description names; \<open>fl\<close> is monotone on the non-negative reals and leaves every
  multiple of a power of two with a mantissa below \<open>2^53\<close> unchanged.
\<close>

lemma round_even_of_int [simp]: "round_even (of_int n) = n"
  by (simp add: round_even_def)

lemma round_even_ge: "x - 1 / 2 \<le> of_int (round_even x)"
  unfolding round_even_def Let_def by (auto; linarith)

lemma round_even_le: "of_int (round_even x) \<le> x + 1 / 2"
  unfolding round_even_def Let_def by (auto; linarith)

lemma round_even_floor: "\<lfloor>x\<rfloor> \<le> round_even x" "round_even x \<le> \<lfloor>x\<rfloor> + 1"
  by (simp_all add: round_even_def Let_def)

lemma round_even_mono: "x \<le> y \<Longrightarrow> round_even x \<le> round_even y"
proof -
  assume xy: "x \<le> y"
  then have fl: "\<lfloor>x\<rfloor> \<le> \<lfloor>y\<rfloor>" by (rule floor_mono)
  show ?thesis
  proof (cases "\<lfloor>x\<rfloor> = \<lfloor>y\<rfloor>")
    case True
    with xy show ?thesis by (auto simp: round_even_def Let_def)
  next
    case False
    with fl have "\<lfloor>x\<rfloor> + 1 \<le> \<lfloor>y\<rfloor>" by simp
    with round_even_floor(2)[of x] round_even_floor(1)[of y] show ?thesis by linarith
  qed
qed

lemma round_even_le_int: "x \<le> of_int n \<Longrightarrow> round_even x \<le> n"
  using round_even_mono[of x "of_int n"] by simp

lemma round_even_ge_int: "of_int n \<le> x \<Longrightarrow> n \<le> round_even x"
  using round_even_mono[of "of_int n" x] by simp

lemma round_even_less_int: "x < of_int n - 1 / 2 \<Longrightarrow> round_even x \<le> n - 1"
proof -
  assume "x < of_int n - 1 / 2"
  with round_even_le[of x] have "of_int (round_even x) < (of_int n :: real)" by linarith
  then show ?thesis by simp
qed

lemma two_pow_le_of_int: "2 ^ n \<le> m \<Longrightarrow> (2::real) ^ n \<le> of_int m"
proof -
  assume "2 ^ n \<le> m"
  then have "(of_int (2 ^ n) :: real) \<le> of_int m" by (simp only: of_int_le_iff)
  then show ?thesis by simp
qed

lemma of_int_le_two_pow: "m \<le> 2 ^ n \<Longrightarrow> of_int m \<le> (2::real) ^ n"
proof -
  assume "m \<le> 2 ^ n"
  then have "(of_int m :: real) \<le> of_int (2 ^ n)" by (simp only: of_int_le_iff)
  then show ?thesis by simp
qed

lemma binade_ge1:
  assumes "1 \<le> x"
  shows "0 \<le> binade x" "2 ^ nat (binade x) \<le> x" "x < 2 ^ nat (binade x + 1)"
proof -
  from assms have p: "0 < \<lfloor>x\<rfloor>" by linarith
  have b: "binade x = bitlen \<lfloor>x\<rfloor> - 1" using assms by (simp add: binade_def)
  from p have b1: "1 \<le> bitlen \<lfloor>x\<rfloor>" by (simp add: bitlen_alt_def)
  then show "0 \<le> binade x" by (simp add: b)
  from bitlen_bounds[OF p] have lo: "2 ^ nat (bitlen \<lfloor>x\<rfloor> - 1) \<le> \<lfloor>x\<rfloor>"
    and hi: "\<lfloor>x\<rfloor> < 2 ^ nat (bitlen \<lfloor>x\<rfloor>)" by simp_all
  from lo have "(2::real) ^ nat (bitlen \<lfloor>x\<rfloor> - 1) \<le> of_int \<lfloor>x\<rfloor>"
    by (rule two_pow_le_of_int)
  also have "\<dots> \<le> x" by simp
  finally show "2 ^ nat (binade x) \<le> x" by (simp add: b)
  from hi have "\<lfloor>x\<rfloor> + 1 \<le> 2 ^ nat (bitlen \<lfloor>x\<rfloor>)" by simp
  then have "of_int (\<lfloor>x\<rfloor> + 1) \<le> (2::real) ^ nat (bitlen \<lfloor>x\<rfloor>)"
    by (rule of_int_le_two_pow)
  moreover have "x < of_int (\<lfloor>x\<rfloor> + 1)" by linarith
  ultimately have "x < 2 ^ nat (bitlen \<lfloor>x\<rfloor>)" by linarith
  then show "x < 2 ^ nat (binade x + 1)" by (simp add: b)
qed

lemma binade_lt1:
  assumes "0 < x" "x < 1"
  shows "binade x < 0" "1 / 2 ^ nat (- binade x) \<le> x" "x < 2 / 2 ^ nat (- binade x)"
proof -
  let ?n = "\<lceil>1 / x\<rceil>"
  let ?b = "bitlen (?n - 1)"
  from assms have y: "1 < 1 / x" by simp
  then have p: "0 < ?n - 1" by linarith
  have b: "binade x = - ?b" using assms by (simp add: binade_def)
  from p have b1: "1 \<le> ?b" by (simp add: bitlen_alt_def)
  then show "binade x < 0" by (simp add: b)
  from bitlen_bounds[OF p] have lo: "2 ^ nat (?b - 1) \<le> ?n - 1"
    and hi: "?n - 1 < 2 ^ nat ?b" by simp_all
  from hi have "?n \<le> 2 ^ nat ?b" by simp
  then have "of_int ?n \<le> (2::real) ^ nat ?b"
    by (rule of_int_le_two_pow)
  moreover have "1 / x \<le> of_int ?n" by simp
  ultimately have "1 / x \<le> 2 ^ nat ?b" by linarith
  then have "1 \<le> 2 ^ nat ?b * x" using assms(1) by (simp add: field_simps)
  then show "1 / 2 ^ nat (- binade x) \<le> x" by (simp add: b field_simps)
  from lo have "(2::real) ^ nat (?b - 1) \<le> of_int (?n - 1)"
    by (rule two_pow_le_of_int)
  moreover have "of_int (?n - 1) < 1 / x" by linarith
  ultimately have "(2::real) ^ nat (?b - 1) < 1 / x" by linarith
  then have "2 ^ nat (?b - 1) * x < 1" using assms(1) by (simp add: field_simps)
  moreover have "nat ?b = Suc (nat (?b - 1))" using b1 by simp
  then have "(2::real) ^ nat ?b = 2 * 2 ^ nat (?b - 1)" by (simp only: power_Suc)
  ultimately show "x < 2 / 2 ^ nat (- binade x)" by (simp add: b field_simps)
qed

lemma binade_bounds:
  assumes "0 < x"
  shows "2 powi binade x \<le> x" "x < 2 powi (binade x + 1)"
proof -
  show "2 powi binade x \<le> x"
  proof (cases "1 \<le> x")
    case True
    from binade_ge1[OF True] show ?thesis by (simp add: power_int_def)
  next
    case False
    with assms have "x < 1" by simp
    from binade_lt1[OF assms this] show ?thesis by (simp add: power_int_def field_simps)
  qed
  show "x < 2 powi (binade x + 1)"
  proof (cases "1 \<le> x")
    case True
    from binade_ge1[OF True] show ?thesis by (simp add: power_int_def)
  next
    case False
    with assms have x1: "x < 1" by simp
    from binade_lt1[OF assms x1] have "x < 2 powi 1 * 2 powi binade x"
      by (simp add: power_int_def field_simps)
    then show ?thesis by (simp add: power_int_add)
  qed
qed

lemma powi_less_cancel: "(2::real) powi a < 2 powi b \<Longrightarrow> a < b"
  using power_int_increasing[of b a "2::real"] by (cases "a < b") auto

lemma binade_unique:
  assumes "2 powi k \<le> x" "x < 2 powi (k + 1)"
  shows "binade x = k"
proof -
  have "(0::real) < 2 powi k" by simp
  with assms(1) have pos: "0 < x" by linarith
  note b = binade_bounds[OF pos]
  have "2 powi k < (2::real) powi (binade x + 1)" using assms(1) b(2) by linarith
  then have 1: "k < binade x + 1" by (rule powi_less_cancel)
  have "2 powi binade x < (2::real) powi (k + 1)" using assms(2) b(1) by linarith
  then have 2: "binade x < k + 1" by (rule powi_less_cancel)
  from 1 2 show ?thesis by simp
qed


lemma binade_mono:
  assumes "0 < x" "x \<le> y"
  shows "binade x \<le> binade y"
proof -
  from assms have y: "0 < y" by simp
  have "2 powi binade x \<le> x" by (rule binade_bounds(1)[OF assms(1)])
  also note assms(2)
  also have "y < 2 powi (binade y + 1)" by (rule binade_bounds(2)[OF y])
  finally have "binade x < binade y + 1" by (rule powi_less_cancel)
  then show ?thesis by simp
qed

lemma round_even_zero [simp]: "round_even 0 = 0"
  by (simp add: round_even_def)

lemma fl_zero [simp]: "fl 0 = 0"
  by (simp add: fl_def)

lemma powi_split: "(2::real) powi a = 2 powi b * 2 powi (a - b)"
  by (simp flip: power_int_add)

lemma fl_grid:
  assumes "x = of_int n * 2 powi j" "ulp_exponent x \<le> j"
  shows "fl x = x"
proof -
  define u :: real where "u = 2 powi ulp_exponent x"
  define c :: int where "c = 2 ^ nat (j - ulp_exponent x)"
  have u: "0 < u" by (simp add: u_def)
  have "(2::real) powi (j - ulp_exponent x) = of_int c"
    using assms(2) by (simp add: power_int_def c_def)
  then have j: "2 powi j = u * of_int c"
    using powi_split[of j "ulp_exponent x"] by (simp add: u_def)
  have "x / u = of_int (n * c)" using u by (simp add: assms(1) j)
  then have "round_even (x / u) = n * c" by (simp only: round_even_of_int)
  then have "fl x = of_int (n * c) * u" by (simp add: fl_def u_def)
  also have "\<dots> = x" by (simp add: assms(1) j)
  finally show ?thesis .
qed

lemma fl_upper:
  assumes "0 < x"
  shows "fl x \<le> 2 powi (max (binade x) (- 1022) + 1)"
proof -
  define m where "m = max (binade x) (- 1022)"
  define u :: real where "u = 2 powi (m - 52)"
  define P :: int where "P = 2 ^ 53"
  have u: "0 < u" by (simp add: u_def)
  have e: "ulp_exponent x = m - 52" by (simp add: ulp_exponent_def m_def)
  have P: "(2::real) powi 53 = of_int P" by (simp add: P_def)
  have s: "2 powi (m + 1) = of_int P * u"
  proof -
    have "m + 1 - 53 = m - 52" by simp
    with powi_split[of "m + 1" 53] show ?thesis by (simp only: P u_def)
  qed
  have "x < 2 powi (binade x + 1)" by (rule binade_bounds(2)[OF assms])
  also have "\<dots> \<le> 2 powi (m + 1)" by (intro power_int_increasing) (simp_all add: m_def)
  finally have "x \<le> of_int P * u" by (simp add: s)
  then have "x / u \<le> of_int P" using u by (simp add: pos_divide_le_eq)
  then have "round_even (x / u) \<le> P" by (rule round_even_le_int)
  then have "(of_int (round_even (x / u)) :: real) \<le> of_int P" by (simp only: of_int_le_iff)
  then have "of_int (round_even (x / u)) * u \<le> of_int P * u"
    using u by (simp only: mult_le_cancel_right_pos)
  then show ?thesis by (simp add: fl_def e s flip: m_def u_def)
qed

lemma fl_lower:
  assumes "0 < x" "- 1022 \<le> binade x"
  shows "2 powi binade x \<le> fl x"
proof -
  define u :: real where "u = 2 powi (binade x - 52)"
  define Q :: int where "Q = 2 ^ 52"
  have u: "0 < u" by (simp add: u_def)
  have e: "ulp_exponent x = binade x - 52" using assms(2) by (simp add: ulp_exponent_def)
  have Q: "(2::real) powi 52 = of_int Q" by (simp add: Q_def)
  have s: "2 powi binade x = of_int Q * u"
    using powi_split[of "binade x" 52] by (simp only: Q u_def)
  have "of_int Q * u \<le> x" using binade_bounds(1)[OF assms(1)] by (simp add: s)
  then have "of_int Q \<le> x / u" using u by (simp add: pos_le_divide_eq)
  then have "Q \<le> round_even (x / u)" by (rule round_even_ge_int)
  then have "of_int Q \<le> (of_int (round_even (x / u)) :: real)" by (simp only: of_int_le_iff)
  then have "of_int Q * u \<le> of_int (round_even (x / u)) * u"
    using u by (simp only: mult_le_cancel_right_pos)
  then show ?thesis by (simp add: fl_def e s flip: u_def)
qed

lemma fl_nonneg: "0 \<le> x \<Longrightarrow> 0 \<le> fl x"
proof -
  assume "0 \<le> x"
  then have "0 \<le> round_even (x / 2 powi ulp_exponent x)"
    by (intro round_even_ge_int) simp
  then show ?thesis by (simp add: fl_def)
qed

lemma fl_mono:
  assumes "0 \<le> x" "x \<le> y"
  shows "fl x \<le> fl y"
proof (cases "x = 0")
  case True
  from assms have "0 \<le> fl y" by (intro fl_nonneg) simp
  with True show ?thesis by simp
next
  case False
  with assms have x: "0 < x" and y: "0 < y" by simp_all
  let ?mx = "max (binade x) (- 1022)" and ?my = "max (binade y) (- 1022)"
  have b: "binade x \<le> binade y" by (rule binade_mono[OF x assms(2)])
  show ?thesis
  proof (cases "?mx = ?my")
    case True
    then have e: "ulp_exponent x = ulp_exponent y" by (simp add: ulp_exponent_def)
    have "x / 2 powi ulp_exponent y \<le> y / 2 powi ulp_exponent y"
      using assms(2) by (simp add: divide_right_mono)
    then have "round_even (x / 2 powi ulp_exponent y) \<le> round_even (y / 2 powi ulp_exponent y)"
      by (rule round_even_mono)
    then show ?thesis by (simp add: fl_def e)
  next
    case False
    with b have lt: "?mx + 1 \<le> binade y" and n: "- 1022 \<le> binade y" by auto
    have "fl x \<le> 2 powi (?mx + 1)" by (rule fl_upper[OF x])
    also have "\<dots> \<le> 2 powi binade y" using lt by (intro power_int_increasing) simp_all
    also have "\<dots> \<le> fl y" by (rule fl_lower[OF y n])
    finally show ?thesis .
  qed
qed


lemma fl_dyadic:
  assumes "0 < n" "of_int n < (2::real) powi 53" "- 1074 \<le> j"
  shows "fl (of_int n * 2 powi j) = of_int n * 2 powi j"
proof (rule fl_grid[OF refl])
  let ?x = "of_int n * (2::real) powi j"
  have pos: "0 < ?x" using assms(1) by simp
  have "?x < 2 powi 53 * 2 powi j" using assms(2) by simp
  also have "\<dots> = 2 powi (53 + j)" by (simp add: power_int_add)
  finally have "2 powi binade ?x < (2::real) powi (53 + j)"
    using binade_bounds(1)[OF pos] by linarith
  then have "binade ?x < 53 + j" by (rule powi_less_cancel)
  with assms(3) show "ulp_exponent ?x \<le> j" by (simp add: ulp_exponent_def)
qed

lemma fl_small_int:
  assumes "0 < n" "n < 2 ^ 53"
  shows "fl (of_int n) = of_int n"
proof -
  from assms(2) have "(of_int n :: real) < of_int (2 ^ 53)" by (simp only: of_int_less_iff)
  then have "of_int n < (2::real) powi 53" by simp
  from fl_dyadic[OF assms(1) this, of 0] show ?thesis by simp
qed

lemma fl_in_binade:
  assumes "2 powi k \<le> x" "x < 2 powi (k + 1)" "- 1022 \<le> k"
  shows "fl x = of_int (round_even (x / 2 powi (k - 52))) * 2 powi (k - 52)"
proof -
  have "binade x = k" by (rule binade_unique[OF assms(1,2)])
  with assms(3) have "ulp_exponent x = k - 52" by (simp add: ulp_exponent_def)
  then show ?thesis by (simp add: fl_def)
qed

lemma double_below_one:
  assumes "fl r = r" "r < 1"
  shows "r \<le> 1 - 2 powi (- 53)"
proof (cases "r < 1 / 2")
  case True
  have "(2::real) powi (- 53) \<le> 2 powi (- 1)" by (intro power_int_increasing) simp_all
  then have "(2::real) powi (- 53) \<le> 1 / 2" by (simp add: power_int_minus)
  with True show ?thesis by linarith
next
  case False
  define m where "m = round_even (r / 2 powi (- 53))"
  have "2 powi (- 1) \<le> r" using False by (simp add: power_int_minus)
  moreover have "r < 2 powi (- 1 + 1)" using assms(2) by simp
  ultimately have "fl r = of_int m * 2 powi (- 53)"
    unfolding m_def using fl_in_binade[of "- 1" r] by simp
  with assms(1) have r: "r = of_int m * 2 powi (- 53)" by simp
  have one: "(1::real) = 2 powi 53 * 2 powi (- 53)" by (simp flip: power_int_add)
  from assms(2) have "of_int m * 2 powi (- 53) < 2 powi 53 * (2::real) powi (- 53)"
    by (simp only: r[symmetric] one[symmetric])
  then have "of_int m < (2::real) powi 53" by (simp only: mult_less_cancel_right_pos zero_less_power_int zero_less_numeral)
  then have "(of_int m :: real) < of_int (2 ^ 53)" by simp
  then have "m < 2 ^ 53" by (simp only: of_int_less_iff)
  then have "m \<le> 2 ^ 53 - 1" by simp
  then have "(of_int m :: real) \<le> of_int (2 ^ 53 - 1)" by (simp only: of_int_le_iff)
  then have "(of_int m :: real) \<le> 2 powi 53 - 1" by simp
  then have "of_int m * 2 powi (- 53) \<le> (2 powi 53 - 1) * (2::real) powi (- 53)"
    by (simp only: mult_le_cancel_right_pos zero_less_power_int zero_less_numeral)
  also have "\<dots> = 1 - 2 powi (- 53)" by (simp add: left_diff_distrib flip: power_int_add)
  finally show ?thesis by (simp only: r[symmetric])
qed

lemma double_mantissa:
  assumes "fl q = q" "0 < q" "- 1022 \<le> binade q"
  obtains M where "q = of_int M * 2 powi (binade q - 52)"
    and "2 powi 52 \<le> (of_int M :: real)" and "of_int M < (2::real) powi 53"
proof -
  define u :: real where "u = 2 powi (binade q - 52)"
  define M where "M = round_even (q / u)"
  have u: "0 < u" by (simp add: u_def)
  have "ulp_exponent q = binade q - 52" using assms(3) by (simp add: ulp_exponent_def)
  then have "fl q = of_int M * u" by (simp add: fl_def M_def u_def)
  with assms(1) have q: "q = of_int M * u" by simp
  have lo: "2 powi binade q = 2 powi 52 * u"
    using powi_split[of "binade q" 52] by (simp only: u_def)
  have hi: "2 powi (binade q + 1) = 2 powi 53 * u"
  proof -
    have "binade q + 1 - 53 = binade q - 52" by simp
    with powi_split[of "binade q + 1" 53] show ?thesis by (simp only: u_def)
  qed
  from binade_bounds(1)[OF assms(2)] have "2 powi 52 * u \<le> of_int M * u"
    by (simp only: lo q[symmetric])
  then have 1: "2 powi 52 \<le> (of_int M :: real)" using u by (simp only: mult_le_cancel_right_pos)
  from binade_bounds(2)[OF assms(2)] have "of_int M * u < 2 powi 53 * u"
    by (simp only: hi q[symmetric])
  then have 2: "of_int M < (2::real) powi 53" using u by (simp only: mult_less_cancel_right_pos)
  from q 1 2 show ?thesis unfolding u_def by (rule that)
qed

lemma fl_mult_below:
  assumes r: "fl r = r" "0 \<le> r" "r < 1" and q: "fl q = q" "1 \<le> q"
  shows "fl (r * q) < q"
proof -
  define d :: real where "d = 2 powi (- 53)"
  define k where "k = binade q"
  define u :: real where "u = 2 powi (k - 52)"
  have d: "0 < d" and u: "0 < u" by (simp_all add: d_def u_def)
  have d53: "2 powi 53 * d = 1" and d52: "2 powi 52 * d = 1 / 2"
    by (simp_all add: d_def power_int_minus)
  have qpos: "0 < q" using q(2) by simp
  have k0: "0 \<le> k" unfolding k_def by (rule binade_ge1(1)[OF q(2)])
  then have kn: "- 1022 \<le> binade q" by (simp add: k_def)
  from double_mantissa[OF q(1) qpos kn] obtain M where
    qM: "q = of_int M * u" and Mlo: "2 powi 52 \<le> (of_int M :: real)"
    and Mhi: "of_int M < (2::real) powi 53"
    unfolding u_def k_def by blast
  define y where "y = q * (1 - d)"
  have "r \<le> 1 - d" unfolding d_def by (rule double_below_one[OF r(1,3)])
  then have "r * q \<le> (1 - d) * q" using qpos by (simp only: mult_le_cancel_right_pos)
  then have ry: "r * q \<le> y" by (simp add: y_def mult.commute)
  have "0 \<le> r * q" using r(2) qpos by simp
  then have m: "fl (r * q) \<le> fl y" using ry by (rule fl_mono)
  have yu: "y = (of_int M - of_int M * d) * u" by (simp add: y_def qM algebra_simps)
  have Md1: "of_int M * d < 1"
    using Mhi d d53 by (metis mult_less_cancel_right_pos)
  have "fl y < q"
  proof (cases "of_int M = (2::real) powi 52")
    case True
    define n :: int where "n = 2 ^ 53 - 1"
    have n: "(of_int n :: real) = 2 powi 53 - 1" by (simp add: n_def)
    have u2: "u = 2 * 2 powi (k - 53)"
      using powi_split[of "k - 52" 1] by (simp add: u_def)
    have "of_int M * d = 1 / 2" by (simp only: True d52)
    then have "y = (2 powi 52 - 1 / 2) * u" by (simp only: yu True)
    also have "\<dots> = (2 * 2 powi 52 - 1) * 2 powi (k - 53)" by (simp add: u2 algebra_simps)
    also have "2 * (2::real) powi 52 = 2 powi 53" by simp
    finally have y: "y = of_int n * 2 powi (k - 53)" by (simp only: n)
    have "fl y = y" unfolding y
    proof (rule fl_dyadic)
      show "0 < n" by (simp add: n_def)
      show "of_int n < (2::real) powi 53" by (simp add: n)
      show "- 1074 \<le> k - 53" using k0 by simp
    qed
    moreover have "y < q" using qpos d by (simp add: y_def algebra_simps)
    ultimately show ?thesis by simp
  next
    case False
    with Mlo have "(2::real) powi 52 < of_int M" by simp
    then have "(of_int (2 ^ 52) :: real) < of_int M" by simp
    then have "2 ^ 52 < M" by (simp only: of_int_less_iff)
    then have "2 ^ 52 + 1 \<le> M" by simp
    then have "(of_int (2 ^ 52 + 1) :: real) \<le> of_int M" by (simp only: of_int_le_iff)
    then have M1: "2 powi 52 + 1 \<le> (of_int M :: real)" by simp
    have "2 powi 52 * d < of_int M * d"
      using \<open>2 powi 52 < of_int M\<close> d by (simp only: mult_less_cancel_right_pos)
    then have Mdh: "1 / 2 < of_int M * d" by (simp only: d52)
    have lo: "2 powi k = 2 powi 52 * u"
      using powi_split[of k 52] by (simp only: u_def)
    have "2 powi 52 * u \<le> (of_int M - of_int M * d) * u"
      using M1 Md1 u by (simp only: mult_le_cancel_right_pos)
    then have b1: "2 powi k \<le> y" by (simp only: lo yu)
    have "y < q" using qpos d by (simp add: y_def algebra_simps)
    also have "q < 2 powi (k + 1)" unfolding k_def by (rule binade_bounds(2)[OF qpos])
    finally have b2: "y < 2 powi (k + 1)" .
    have "- 1022 \<le> k" using k0 by simp
    from fl_in_binade[OF b1 b2 this]
    have fy: "fl y = of_int (round_even (y / u)) * u" by (simp only: u_def)
    have "y / u = of_int M - of_int M * d" using u by (simp add: yu)
    also have "\<dots> < of_int M - 1 / 2" using Mdh by simp
    finally have "round_even (y / u) \<le> M - 1" by (rule round_even_less_int)
    then have "(of_int (round_even (y / u)) :: real) \<le> of_int (M - 1)"
      by (simp only: of_int_le_iff)
    then have "of_int (round_even (y / u)) * u \<le> of_int (M - 1) * u"
      using u by (simp only: mult_le_cancel_right_pos)
    also have "\<dots> < of_int M * u" using u by simp
    finally show ?thesis by (simp only: fy qM)
  qed
  with m show ?thesis by linarith
qed

lemma index_bound:
  assumes "fl r = r" "0 \<le> r" "r < 1"
  shows "fl (r * 7) < 7"
proof -
  have "r \<le> 1 - 2 powi (- 53)" by (rule double_below_one[OF assms(1,3)])
  then have "r * 7 \<le> 7 * (1 - 2 powi (- 53))" by simp
  with assms(2) have "fl (r * 7) \<le> fl (7 * (1 - 2 powi (- 53)))" by (intro fl_mono) simp_all
  also have "fl (7 * (1 - 2 powi (- 53))) = 7 - 2 powi (- 50)" by code_simp
  also have "\<dots> < 7" by simp
  finally show ?thesis .
qed

text \<open>
  The comparator: every result of \<open>fl\<close> is a multiple of \<open>2^(-1074)\<close>, the smallest
  positive double, so the difference of two confidences, when it is not zero, is at
  least that far from zero and is not rounded to zero. The rounded difference has the
  sign of the exact one.
\<close>

lemma fl_nonpos: "x \<le> 0 \<Longrightarrow> fl x \<le> 0"
proof -
  assume "x \<le> 0"
  then have "x / 2 powi ulp_exponent x \<le> of_int 0" by (simp add: divide_le_0_iff)
  then have "round_even (x / 2 powi ulp_exponent x) \<le> 0" by (rule round_even_le_int)
  then show ?thesis by (simp add: fl_def mult_le_0_iff)
qed

lemma fl_on_grid: "\<exists>n. fl x = of_int n * 2 powi (- 1074)"
proof -
  define e where "e = ulp_exponent x"
  define c :: int where "c = 2 ^ nat (e + 1074)"
  define g :: real where "g = 2 powi (- 1074)"
  have "- 1074 \<le> e" by (simp add: e_def ulp_exponent_def)
  then have "(2::real) powi (e - (- 1074)) = of_int c" by (simp add: power_int_def c_def)
  with powi_split[of e "- 1074"] have "(2::real) powi e = g * of_int c"
    by (simp only: g_def)
  then have "fl x = of_int (round_even (x / 2 powi e) * c) * g"
    by (simp add: fl_def e_def)
  then show ?thesis unfolding g_def by blast
qed

lemma fl_difference_pos:
  assumes "a = of_int m * 2 powi (- 1074)" "b = of_int n * 2 powi (- 1074)" "a < b"
  shows "0 < fl (b - a)"
proof -
  define g :: real where "g = 2 powi (- 1074)"
  have g: "0 < g" unfolding g_def by (rule zero_less_power_int) simp
  have a: "a = of_int m * g" and b: "b = of_int n * g"
    using assms(1,2) by (simp_all only: g_def)
  from assms(3) have "of_int m * g < of_int n * g" by (simp only: a b)
  with g have "(of_int m :: real) < of_int n" by (simp only: mult_less_cancel_right_pos)
  then have "m + 1 \<le> n" by simp
  then have "(of_int (m + 1) :: real) \<le> of_int n" by (simp only: of_int_le_iff)
  then have "of_int (m + 1) * g \<le> of_int n * g" using g by (simp only: mult_le_cancel_right_pos)
  then have le: "g \<le> b - a" by (simp add: a b algebra_simps)
  have "fl g \<le> fl (b - a)" using g le by (intro fl_mono) simp_all
  moreover have "fl (of_int 1 * 2 powi (- 1074)) = of_int 1 * 2 powi (- 1074)"
    by (rule fl_dyadic) simp_all
  then have "fl g = g" by (simp only: g_def of_int_1 mult_1)
  ultimately show ?thesis using g by simp
qed

lemma compare_desc_sign:
  assumes "confidence a = fl u" "confidence b = fl v"
  shows "compare_desc a b \<le> 0 \<longleftrightarrow> confidence b \<le> confidence a"
proof
  assume c: "compare_desc a b \<le> 0"
  show "confidence b \<le> confidence a"
  proof (rule ccontr)
    assume "\<not> confidence b \<le> confidence a"
    then have lt: "confidence a < confidence b" by simp
    from fl_on_grid[of u] fl_on_grid[of v] assms obtain m n where
      "confidence a = of_int m * 2 powi (- 1074)" "confidence b = of_int n * 2 powi (- 1074)"
      by auto
    from fl_difference_pos[OF this lt] c show False by (simp add: compare_desc_def)
  qed
next
  assume "confidence b \<le> confidence a"
  then show "compare_desc a b \<le> 0" unfolding compare_desc_def by (intro fl_nonpos) simp
qed

text \<open>The sort keeps the elements, and puts them in the order of the comparator.\<close>

lemma mset_insert_by [simp]: "mset (insert_by cmp x ys) = add_mset x (mset ys)"
  by (induction ys) simp_all

lemma mset_sort_by [simp]: "mset (sort_by cmp xs) = mset xs"
  by (induction xs) (simp_all add: sort_by_def)

lemma set_sort_by [simp]: "set (sort_by cmp xs) = set xs"
  using mset_sort_by[of cmp xs] by (metis set_mset_mset)

lemma sort_by_Cons: "sort_by cmp (x # xs) = insert_by cmp x (sort_by cmp xs)"
  by (simp add: sort_by_def)

lemma insert_by_front:
  "\<forall>y \<in> set ys. cmp x y \<le> 0 \<Longrightarrow> insert_by cmp x ys = x # ys"
  by (cases ys) simp_all

lemma set_insert_by [simp]: "set (insert_by cmp x ys) = insert x (set ys)"
  using mset_insert_by[of cmp x ys] by (metis set_mset_add_mset_insert set_mset_mset)

lemma sorted_insert_by:
  assumes "sorted_wrt (\<lambda>a b. confidence a \<ge> confidence b) ys"
    and "\<forall>y \<in> set ys. compare_desc x y \<le> 0 \<longleftrightarrow> confidence y \<le> confidence x"
  shows "sorted_wrt (\<lambda>a b. confidence a \<ge> confidence b) (insert_by compare_desc x ys)"
  using assms
proof (induction ys)
  case Nil
  then show ?case by simp
next
  case (Cons y ys)
  show ?case
  proof (cases "compare_desc x y \<le> 0")
    case True
    with Cons.prems have "confidence y \<le> confidence x" by simp
    with Cons.prems(1) True show ?thesis by auto
  next
    case False
    with Cons.prems have yx: "confidence x \<le> confidence y" by simp
    have "sorted_wrt (\<lambda>a b. confidence a \<ge> confidence b) (insert_by compare_desc x ys)"
      using Cons.prems by (intro Cons.IH) simp_all
    with Cons.prems(1) yx False show ?thesis by auto
  qed
qed

lemma sorted_sort_desc:
  assumes "\<forall>x \<in> set xs. \<exists>u. confidence x = fl u"
  shows "sorted_wrt (\<lambda>a b. confidence a \<ge> confidence b) (sort_desc xs)"
  using assms
proof (induction xs)
  case Nil
  then show ?case by (simp add: sort_desc_def sort_by_def)
next
  case (Cons x xs)
  have s: "sorted_wrt (\<lambda>a b. confidence a \<ge> confidence b) (sort_by compare_desc xs)"
    using Cons by (simp add: sort_desc_def)
  have "\<forall>y \<in> set (sort_by compare_desc xs).
          compare_desc x y \<le> 0 \<longleftrightarrow> confidence y \<le> confidence x"
  proof
    fix y assume "y \<in> set (sort_by compare_desc xs)"
    then have "y \<in> set xs" by simp
    with Cons.prems obtain u v where "confidence x = fl u" "confidence y = fl v" by auto
    then show "compare_desc x y \<le> 0 \<longleftrightarrow> confidence y \<le> confidence x"
      by (rule compare_desc_sign)
  qed
  with s show ?case unfolding sort_desc_def sort_by_Cons by (rule sorted_insert_by)
qed

section \<open>Properties of the mock classification\<close>

lemma distinct_emotions: "distinct emotions" and length_emotions: "length emotions = 7"
  by (simp_all add: emotions_def)

text \<open>
  The index: for a double \<open>r\<close> in \<open>[0, 1)\<close> the rounded product \<open>r * 7\<close> is at most
  \<open>7 - 2^(-50)\<close>, so its floor is at most 6.
\<close>

lemma random_index:
  assumes "is_double r" "0 \<le> r" "r < 1"
  shows "nat \<lfloor>fl (r * real (length emotions))\<rfloor> < length emotions"
proof -
  from assms have "fl (r * 7) < 7" by (intro index_bound) (simp_all add: is_double_def)
  then have "\<lfloor>fl (r * 7)\<rfloor> < 7" by (simp add: floor_less_iff)
  then have "nat \<lfloor>fl (r * 7)\<rfloor> < 7" by linarith
  then show ?thesis by (simp add: length_emotions)
qed

lemma primaryEmotion_in:
  assumes "is_double (rnd 0)" "0 \<le> rnd 0" "rnd 0 < 1"
  shows "primaryEmotion rnd \<in> set emotions"
  unfolding primaryEmotion_def using random_index[of "rnd 0"] assms by simp

text \<open>
  The primary confidence: the rounded product lies in \<open>[0, 30]\<close> and the rounded sum
  in \<open>[65, 95]\<close>, both ends being doubles. The value 95 is reached (lemma
  \<open>rounding_examples\<close>).
\<close>

lemma fl_30: "fl 30 = 30" and fl_65: "fl 65 = 65" and fl_95: "fl 95 = 95"
  using fl_small_int[of 30] fl_small_int[of 65] fl_small_int[of 95] by simp_all

lemma scaled_random_range:
  assumes "0 \<le> r" "r < 1"
  shows "0 \<le> fl (r * 30)" "fl (r * 30) \<le> 30"
proof -
  from assms show "0 \<le> fl (r * 30)" by (intro fl_nonneg) simp
  from assms have "fl (r * 30) \<le> fl 30" by (intro fl_mono) simp_all
  then show "fl (r * 30) \<le> 30" by (simp only: fl_30)
qed

lemma primaryConfidence_range:
  assumes "0 \<le> rnd 1" "rnd 1 < 1"
  shows "65 \<le> primaryConfidence rnd" "primaryConfidence rnd \<le> 95"
proof -
  note t = scaled_random_range[OF assms]
  from t have "fl 65 \<le> fl (65 + fl (rnd 1 * 30))" by (intro fl_mono) simp_all
  then show "65 \<le> primaryConfidence rnd" by (simp only: fl_65 primaryConfidence_def)
  from t have "fl (65 + fl (rnd 1 * 30)) \<le> fl 95" by (intro fl_mono) simp_all
  then show "primaryConfidence rnd \<le> 95" by (simp only: fl_95 primaryConfidence_def)
qed

text \<open>
  The primary confidence is a multiple of \<open>2^(-46)\<close>, the spacing of the doubles
  between 64 and 128, so \<open>100 - primaryConfidence\<close> is computed without rounding
  error.
\<close>

lemma complement_exact:
  assumes "0 \<le> rnd 1" "rnd 1 < 1"
  shows "fl (100 - primaryConfidence rnd) = 100 - primaryConfidence rnd"
proof -
  define y where "y = 65 + fl (rnd 1 * 30)"
  define N where "N = round_even (y / 2 powi (6 - 52))"
  define c :: int where "c = 2 ^ 46"
  define n where "n = 100 * c - N"
  define v :: real where "v = 2 powi (- 46)"
  note t = scaled_random_range[OF assms]
  have c: "of_int c * v = 1" by (simp add: c_def v_def power_int_minus)
  have v: "0 < v" by (simp add: v_def)
  have "2 powi 6 \<le> y" "y < 2 powi (6 + 1)" using t by (simp_all add: y_def)
  from fl_in_binade[OF this] have p: "primaryConfidence rnd = of_int N * v"
    by (simp add: primaryConfidence_def y_def N_def v_def)
  have "of_int n * v = 100 * (of_int c * v) - of_int N * v"
    by (simp add: n_def algebra_simps)
  then have d: "100 - primaryConfidence rnd = of_int n * v" by (simp add: c p)
  have r: "65 \<le> primaryConfidence rnd" "primaryConfidence rnd \<le> 95"
    using primaryConfidence_range[of rnd] assms by simp_all
  from r(2) have "0 < of_int n * v" by (simp add: d[symmetric])
  with v have n0: "0 < n" by (simp add: zero_less_mult_iff)
  have e7: "2 powi 53 * v = (2::real) powi 7" by (simp add: v_def flip: power_int_add)
  from r(1) have "of_int n * v < 2 powi 7" by (simp add: d[symmetric])
  then have "of_int n * v < 2 powi 53 * v" by (simp only: e7)
  with v have n1: "of_int n < (2::real) powi 53" by (simp only: mult_less_cancel_right_pos)
  from fl_dyadic[OF n0 n1, of "- 46"] show ?thesis by (simp add: d v_def)
qed

lemma otherEmotions_confidence:
  assumes r: "\<forall>i. is_double (rnd i) \<and> 0 \<le> rnd i \<and> rnd i < 1" and e: "e \<in> set (otherEmotions rnd)"
  shows "0 \<le> confidence e" "confidence e < 100 - primaryConfidence rnd"
proof -
  define q where "q = 100 - primaryConfidence rnd"
  have r1: "0 \<le> rnd 1" "rnd 1 < 1" using r by simp_all
  have fq: "fl q = q" unfolding q_def using complement_exact[of rnd] r1 by simp
  have q1: "1 \<le> q" using primaryConfidence_range(2)[of rnd] r1 by (simp add: q_def)
  from e have "e \<in> (\<lambda>(i, l). \<lparr>emotion = l, confidence = fl (rnd (2 + i) * fl q)\<rparr>) `
                 set (enumerate 0 (filter (\<lambda>e. e \<noteq> primaryEmotion rnd) emotions))"
    by (simp add: otherEmotions_def sort_desc_def q_def)
  then obtain z where
    z: "e = (\<lambda>(i, l). \<lparr>emotion = l, confidence = fl (rnd (2 + i) * fl q)\<rparr>) z"
    by blast
  obtain i l where "z = (i, l)" by (cases z)
  with z have c: "confidence e = fl (rnd (2 + i) * q)" by (simp add: fq)
  have ri: "fl (rnd (2 + i)) = rnd (2 + i)" "0 \<le> rnd (2 + i)" "rnd (2 + i) < 1"
    using r by (simp_all add: is_double_def)
  from ri(2) q1 have "0 \<le> fl (rnd (2 + i) * q)" by (intro fl_nonneg) simp
  then show "0 \<le> confidence e" by (simp only: c)
  from fl_mult_below[OF ri fq q1] show "confidence e < 100 - primaryConfidence rnd"
    by (simp only: c q_def)
qed

lemma map_emotion_others:
  "map emotion (map (\<lambda>(i, e). \<lparr>emotion = e, confidence = g i\<rparr>) (enumerate n xs)) = xs"
  by (induction xs arbitrary: n) simp_all

lemma mset_map_sort_by: "mset (map f (sort_by cmp xs)) = mset (map f xs)"
  by simp

lemma mset_emotion_otherEmotions:
  "mset (map emotion (otherEmotions rnd)) = mset (filter (\<lambda>e. e \<noteq> primaryEmotion rnd) emotions)"
  unfolding otherEmotions_def sort_desc_def mset_map_sort_by map_emotion_others ..

lemma filter_absent: "p \<notin> set xs \<Longrightarrow> filter (\<lambda>e. e \<noteq> p) xs = xs"
  by (induction xs) auto

lemma mset_remove_distinct:
  "distinct xs \<Longrightarrow> p \<in> set xs \<Longrightarrow> add_mset p (mset (filter (\<lambda>e. e \<noteq> p) xs)) = mset xs"
  by (induction xs) (auto simp: filter_absent simp del: mset_filter)

lemma mset_emotion_all:
  assumes "is_double (rnd 0)" "0 \<le> rnd 0" "rnd 0 < 1"
  shows "mset (map emotion (all (mockResult rnd))) = mset emotions"
proof -
  have "mset (map emotion (all (mockResult rnd))) =
        mset (primaryEmotion rnd # map emotion (otherEmotions rnd))"
    by (simp add: mockResult_def sort_desc_def)
  also have "\<dots> = add_mset (primaryEmotion rnd)
                      (mset (filter (\<lambda>e. e \<noteq> primaryEmotion rnd) emotions))"
    by (simp only: mset.simps mset_emotion_otherEmotions)
  also have "\<dots> = mset emotions"
    using distinct_emotions primaryEmotion_in[of rnd] assms by (intro mset_remove_distinct)
  finally show ?thesis .
qed

lemma length_all:
  assumes "is_double (rnd 0)" "0 \<le> rnd 0" "rnd 0 < 1"
  shows "length (all (mockResult rnd)) = 7"
proof -
  have "mset (map emotion (all (mockResult rnd))) = mset emotions"
    using mset_emotion_all[of rnd] assms by simp
  from mset_eq_length[OF this] show ?thesis by (simp add: length_emotions)
qed

lemma set_all:
  "set (all (mockResult rnd)) = insert (primary (mockResult rnd)) (set (otherEmotions rnd))"
  by (simp add: mockResult_def sort_desc_def)

lemma primary_mockResult:
  "primary (mockResult rnd) = \<lparr>emotion = primaryEmotion rnd, confidence = primaryConfidence rnd\<rparr>"
  by (simp add: mockResult_def)

lemma others_below_primary:
  assumes r: "\<forall>i. is_double (rnd i) \<and> 0 \<le> rnd i \<and> rnd i < 1"
    and e: "e \<in> set (all (mockResult rnd))"
    and ne: "e \<noteq> primary (mockResult rnd)"
  shows "0 \<le> confidence e" "confidence e < 100 - confidence (primary (mockResult rnd))"
    "confidence e < confidence (primary (mockResult rnd))"
proof -
  from e ne have o: "e \<in> set (otherEmotions rnd)" by (simp add: set_all)
  have pc: "65 \<le> primaryConfidence rnd" using r primaryConfidence_range(1)[of rnd] by simp
  show "0 \<le> confidence e" by (rule otherEmotions_confidence(1)[OF r o])
  show "confidence e < 100 - confidence (primary (mockResult rnd))"
    using otherEmotions_confidence(2)[OF r o] by (simp add: primary_mockResult)
  then show "confidence e < confidence (primary (mockResult rnd))"
    using pc by (simp add: primary_mockResult)
qed

lemma count_list_emotions: "l \<in> set emotions \<Longrightarrow> count_list emotions l = 1"
  by (auto simp: emotions_def)

text \<open>
  The sources of the examples are doubles in \<open>[0, 1)\<close>.
\<close>

lemma double_half: "is_double (1 / 2)"
proof -
  have "fl (1 / 2) = 1 / 2" by code_simp
  then show ?thesis by (simp add: is_double_def)
qed

lemma rnd_half_double: "\<forall>i. is_double (rnd_half i) \<and> 0 \<le> rnd_half i \<and> rnd_half i < 1"
  by (simp add: rnd_half_def double_half)

lemma below_one_double: "fl x = x \<Longrightarrow> 0 \<le> x \<Longrightarrow> x < 1 \<Longrightarrow> is_double x"
proof -
  assume "fl x = x" "0 \<le> x" "x < 1"
  moreover have "(1::real) \<le> 2 ^ 1024" by (rule one_le_power) simp
  ultimately show ?thesis unfolding is_double_def by (simp only: abs_of_nonneg) linarith
qed

lemma rnd_falling_double:
  "\<forall>i. is_double (rnd_falling i) \<and> 0 \<le> rnd_falling i \<and> rnd_falling i < 1"
proof
  fix i
  define j where "j = Suc (i mod 8)"
  have e: "(2::real) powi (- int j) = 1 / 2 ^ j"
    by (simp only: power_int_minus power_int_of_nat inverse_eq_divide)
  have v: "rnd_falling i = of_int 1 * 2 powi (- int j)"
    unfolding rnd_falling_def j_def[symmetric] e by simp
  have "fl (of_int 1 * 2 powi (- int j)) = of_int 1 * 2 powi (- int j)"
    by (rule fl_dyadic) (simp_all add: j_def)
  then have f: "fl (rnd_falling i) = rnd_falling i" by (simp only: v)
  have p: "0 \<le> rnd_falling i" by (simp add: rnd_falling_def)
  have "(1::real) < 2 ^ Suc (i mod 8)" by (rule power_gt1) simp
  then have l: "rnd_falling i < 1" by (simp add: rnd_falling_def)
  from below_one_double[OF f p l] p l
  show "is_double (rnd_falling i) \<and> 0 \<le> rnd_falling i \<and> rnd_falling i < 1" by simp
qed

lemma rnd_rising_double:
  "\<forall>i. is_double (rnd_rising i) \<and> 0 \<le> rnd_rising i \<and> rnd_rising i < 1"
proof
  fix i
  have v: "rnd_rising i = of_int (int (i mod 8)) * 2 powi (- 3)"
    by (simp add: rnd_rising_def power_int_minus)
  have f: "fl (rnd_rising i) = rnd_rising i"
  proof (cases "i mod 8 = 0")
    case True
    then show ?thesis by (simp add: rnd_rising_def)
  next
    case False
    have "(of_int (int (i mod 8)) :: real) < of_int 8"
      by simp
    also have "(of_int 8 :: real) \<le> 2 powi 53" by simp
    finally have "fl (of_int (int (i mod 8)) * 2 powi (- 3)) = of_int (int (i mod 8)) * 2 powi (- 3)"
      using False by (intro fl_dyadic) simp_all
    then show ?thesis by (simp only: v)
  qed
  have p: "0 \<le> rnd_rising i" by (simp add: rnd_rising_def)
  have "real (i mod 8) < 8" by simp
  then have l: "rnd_rising i < 1" by (simp add: rnd_rising_def)
  from below_one_double[OF f p l] p l
  show "is_double (rnd_rising i) \<and> 0 \<le> rnd_rising i \<and> rnd_rising i < 1" by simp
qed

text \<open>
  Two roundings that real arithmetic would miss. At \<open>Math.random() =
  0.5714285714285714\<close> the product with 7 is \<open>4 - 2^(-52)\<close>, a tie that rounds to 4, so
  the index is 4 and the primary emotion \<open>neutral\<close>, where the exact product has floor
  3. At \<open>Math.random() = 0.9999999999999998\<close> the primary confidence is exactly 95.
\<close>

lemma rounding_examples:
  "is_double (rnd_ties 0)" "is_double (rnd_ties 1)"
  "rnd_ties 0 * 7 < 4"
  "fl (rnd_ties 0 * 7) = 4"
  "primaryEmotion rnd_ties = ''neutral''"
  "rnd_ties 1 < 1" "65 + rnd_ties 1 * 30 < 95"
  "primaryConfidence rnd_ties = 95"
proof -
  have f0: "fl (rnd_ties 0) = rnd_ties 0" and f1: "fl (rnd_ties 1) = rnd_ties 1"
    by code_simp+
  have b: "0 \<le> rnd_ties 0" "rnd_ties 0 < 1" "0 \<le> rnd_ties 1" "rnd_ties 1 < 1"
    by (simp_all add: rnd_ties_def)
  from below_one_double[OF f0 b(1,2)] show "is_double (rnd_ties 0)" .
  from below_one_double[OF f1 b(3,4)] show "is_double (rnd_ties 1)" .
  show "rnd_ties 0 * 7 < 4" by (simp add: rnd_ties_def)
  show "fl (rnd_ties 0 * 7) = 4" by code_simp
  show "primaryEmotion rnd_ties = ''neutral''" by code_simp
  show "rnd_ties 1 < 1" by (rule b(4))
  show "65 + rnd_ties 1 * 30 < 95" by (simp add: rnd_ties_def)
  show "primaryConfidence rnd_ties = 95" by code_simp
qed

text \<open>
  One run on doubles as a generator returns them. The result is the one IEEE double
  arithmetic gives: the primary confidence \<open>88.1272612521615\<close> and the six products
  are the rounded values, not the exact ones.
\<close>

lemma rnd_sample_double:
  "\<forall>i. is_double (rnd_sample i) \<and> 0 \<le> rnd_sample i \<and> rnd_sample i < 1"
proof
  fix i
  let ?xs = "[5474891034172309 / 2 ^ 53, 6943728343822311 / 2 ^ 53, 2331504394645659 / 2 ^ 53,
              1349640682625853 / 2 ^ 53, 6469361112407539 / 2 ^ 53, 973907677885701 / 2 ^ 50,
              753579761886033 / 2 ^ 51, 1043041119300167 / 2 ^ 52 :: real]"
  have "\<forall>x \<in> set ?xs. fl x = x \<and> 0 \<le> x \<and> x < 1" by code_simp
  moreover have "?xs ! (i mod 8) \<in> set ?xs" by (rule nth_mem) simp
  ultimately have "fl (rnd_sample i) = rnd_sample i \<and> 0 \<le> rnd_sample i \<and> rnd_sample i < 1"
    unfolding rnd_sample_def by blast
  then show "is_double (rnd_sample i) \<and> 0 \<le> rnd_sample i \<and> rnd_sample i < 1"
    using below_one_double[of "rnd_sample i"] by simp
qed

text \<open>
  On confidences that are results of a rounding the comparator decides as the exact
  difference does, so the sort is the one by the exact difference.
\<close>

lemma insert_by_cong:
  "\<forall>y \<in> set ys. c x y \<le> 0 \<longleftrightarrow> d x y \<le> 0 \<Longrightarrow> insert_by c x ys = insert_by d x ys"
  by (induction ys) simp_all

lemma sort_desc_exact:
  assumes "\<forall>x \<in> set xs. \<exists>u. confidence x = fl u"
  shows "sort_desc xs = sort_by (\<lambda>a b. confidence b - confidence a) xs"
  using assms
proof (induction xs)
  case Nil
  then show ?case by (simp add: sort_desc_def sort_by_def)
next
  case (Cons x xs)
  let ?d = "\<lambda>a b. confidence b - confidence a"
  have ih: "sort_by compare_desc xs = sort_by ?d xs"
    using Cons by (simp add: sort_desc_def)
  have "\<forall>y \<in> set (sort_by ?d xs). compare_desc x y \<le> 0 \<longleftrightarrow> ?d x y \<le> 0"
  proof
    fix y assume "y \<in> set (sort_by ?d xs)"
    then have "y \<in> set xs" by simp
    with Cons.prems obtain u v where "confidence x = fl u" "confidence y = fl v" by auto
    from compare_desc_sign[OF this] show "compare_desc x y \<le> 0 \<longleftrightarrow> ?d x y \<le> 0" by simp
  qed
  then have "insert_by compare_desc x (sort_by ?d xs) = insert_by ?d x (sort_by ?d xs)"
    by (rule insert_by_cong)
  with ih show ?case by (simp only: sort_desc_def sort_by_Cons)
qed

lemma all_mockResult_exact:
  "all (mockResult rnd) =
     sort_by (\<lambda>a b. confidence b - confidence a)
       (\<lparr>emotion = primaryEmotion rnd, confidence = primaryConfidence rnd\<rparr> #
        sort_by (\<lambda>a b. confidence b - confidence a)
          (map (\<lambda>(i, e). \<lparr>emotion = e,
                           confidence = fl (rnd (2 + i) * fl (100 - primaryConfidence rnd))\<rparr>)
             (enumerate 0 (filter (\<lambda>e. e \<noteq> primaryEmotion rnd) emotions))))"
proof -
  let ?raw = "map (\<lambda>(i, e). \<lparr>emotion = e,
                           confidence = fl (rnd (2 + i) * fl (100 - primaryConfidence rnd))\<rparr>)
                (enumerate 0 (filter (\<lambda>e. e \<noteq> primaryEmotion rnd) emotions))"
  let ?p = "\<lparr>emotion = primaryEmotion rnd, confidence = primaryConfidence rnd\<rparr>"
  have raw: "\<forall>x \<in> set ?raw. \<exists>u. confidence x = fl u" by auto
  then have o: "otherEmotions rnd = sort_by (\<lambda>a b. confidence b - confidence a) ?raw"
    unfolding otherEmotions_def by (rule sort_desc_exact)
  have "confidence ?p = fl (65 + fl (rnd 1 * 30))" by (simp add: primaryConfidence_def)
  with raw have "\<forall>x \<in> set (?p # otherEmotions rnd). \<exists>u. confidence x = fl u"
    unfolding o by (simp only: set_sort_by set_simps ball_simps) blast
  then have "sort_desc (?p # otherEmotions rnd) =
             sort_by (\<lambda>a b. confidence b - confidence a) (?p # otherEmotions rnd)"
    by (rule sort_desc_exact)
  then show ?thesis by (simp only: mockResult_def o EmotionResult.simps)
qed

text \<open>
  The run on \<open>rnd_sample\<close>, rounding by rounding: \<open>fl_in_binade\<close> gives each rounded
  value from the binade of the exact one.
\<close>

lemma sample_run:
  "primary (mockResult rnd_sample) = \<lparr>emotion = ''neutral'', confidence = 3100702351065757 / 2 ^ 45\<rparr>"
  "all (mockResult rnd_sample) =
     [\<lparr>emotion = ''neutral'', confidence = 3100702351065757 / 2 ^ 45\<rparr>,
      \<lparr>emotion = ''fearful'', confidence = 361342232001593 / 2 ^ 45\<rparr>,
      \<lparr>emotion = ''angry'', confidence = 2400282323532517 / 2 ^ 48\<rparr>,
      \<lparr>emotion = ''surprised'', confidence = 2236763909632803 / 2 ^ 49\<rparr>,
      \<lparr>emotion = ''happy'', confidence = 3460167820883157 / 2 ^ 50\<rparr>,
      \<lparr>emotion = ''disgusted'', confidence = 6191877356351965 / 2 ^ 51\<rparr>,
      \<lparr>emotion = ''sad'', confidence = 4005982807067791 / 2 ^ 51\<rparr>]"
proof -
  have r0: "rnd_sample 0 = 5474891034172309 / 2 ^ 53" by (simp add: rnd_sample_def)
  have r1: "rnd_sample 1 = 6943728343822311 / 2 ^ 53" by (simp add: rnd_sample_def)
  have r2: "rnd_sample 2 = 2331504394645659 / 2 ^ 53" by (simp add: rnd_sample_def)
  have r3: "rnd_sample 3 = 1349640682625853 / 2 ^ 53" by (simp add: rnd_sample_def)
  have r4: "rnd_sample 4 = 6469361112407539 / 2 ^ 53" by (simp add: rnd_sample_def)
  have r5: "rnd_sample 5 = 973907677885701 / 2 ^ 50" by (simp add: rnd_sample_def)
  have r6: "rnd_sample 6 = 753579761886033 / 2 ^ 51" by (simp add: rnd_sample_def)
  have r7: "rnd_sample 7 = 1043041119300167 / 2 ^ 52" by (simp add: rnd_sample_def)
  have f0: "fl (5474891034172309 / 2 ^ 53 * 7) = 2395264827450385 / 2 ^ 49"
    using fl_in_binade[of "2" "5474891034172309 / 2 ^ 53 * 7"] by (simp add: round_even_def)
  have f1: "fl (6943728343822311 / 2 ^ 53 * 30) = 6509745322333417 / 2 ^ 48"
    using fl_in_binade[of "4" "6943728343822311 / 2 ^ 53 * 30"] by (simp add: round_even_def)
  have f2: "fl (65 + 6509745322333417 / 2 ^ 48) = 3100702351065757 / 2 ^ 45"
    using fl_in_binade[of "6" "65 + 6509745322333417 / 2 ^ 48"] by (simp add: round_even_def)
  have f3: "fl (100 - 3100702351065757 / 2 ^ 45) = 417734857817443 / 2 ^ 45"
    using fl_in_binade[of "3" "100 - 3100702351065757 / 2 ^ 45"] by (simp add: round_even_def)
  have g0: "fl (2331504394645659 / 2 ^ 53 * (417734857817443 / 2 ^ 45)) = 3460167820883157 / 2 ^ 50"
    using fl_in_binade[of "1" "2331504394645659 / 2 ^ 53 * (417734857817443 / 2 ^ 45)"] by (simp add: round_even_def)
  have g1: "fl (1349640682625853 / 2 ^ 53 * (417734857817443 / 2 ^ 45)) = 4005982807067791 / 2 ^ 51"
    using fl_in_binade[of "0" "1349640682625853 / 2 ^ 53 * (417734857817443 / 2 ^ 45)"] by (simp add: round_even_def)
  have g2: "fl (6469361112407539 / 2 ^ 53 * (417734857817443 / 2 ^ 45)) = 2400282323532517 / 2 ^ 48"
    using fl_in_binade[of "3" "6469361112407539 / 2 ^ 53 * (417734857817443 / 2 ^ 45)"] by (simp add: round_even_def)
  have g3: "fl (973907677885701 / 2 ^ 50 * (417734857817443 / 2 ^ 45)) = 361342232001593 / 2 ^ 45"
    using fl_in_binade[of "3" "973907677885701 / 2 ^ 50 * (417734857817443 / 2 ^ 45)"] by (simp add: round_even_def)
  have g4: "fl (753579761886033 / 2 ^ 51 * (417734857817443 / 2 ^ 45)) = 2236763909632803 / 2 ^ 49"
    using fl_in_binade[of "1" "753579761886033 / 2 ^ 51 * (417734857817443 / 2 ^ 45)"] by (simp add: round_even_def)
  have g5: "fl (1043041119300167 / 2 ^ 52 * (417734857817443 / 2 ^ 45)) = 6191877356351965 / 2 ^ 51"
    using fl_in_binade[of "1" "1043041119300167 / 2 ^ 52 * (417734857817443 / 2 ^ 45)"] by (simp add: round_even_def)
  have "primaryEmotion rnd_sample = emotions ! nat \<lfloor>fl (5474891034172309 / 2 ^ 53 * 7)\<rfloor>"
    by (simp only: primaryEmotion_def r0 length_emotions of_nat_numeral)
  also have "\<dots> = ''neutral''" by (simp only: f0) (simp add: emotions_def)
  finally have pe: "primaryEmotion rnd_sample = ''neutral''" .
  have pc: "primaryConfidence rnd_sample = 3100702351065757 / 2 ^ 45"
    by (simp only: primaryConfidence_def r1 f1 f2)
  from pe pc show "primary (mockResult rnd_sample) = \<lparr>emotion = ''neutral'', confidence = 3100702351065757 / 2 ^ 45\<rparr>"
    by (simp only: primary_mockResult)
  have c0: "fl (rnd_sample 2 * fl (100 - primaryConfidence rnd_sample)) = 3460167820883157 / 2 ^ 50"
    by (simp only: pc r2 f3 g0)
  have c1: "fl (rnd_sample 3 * fl (100 - primaryConfidence rnd_sample)) = 4005982807067791 / 2 ^ 51"
    by (simp only: pc r3 f3 g1)
  have c2: "fl (rnd_sample 4 * fl (100 - primaryConfidence rnd_sample)) = 2400282323532517 / 2 ^ 48"
    by (simp only: pc r4 f3 g2)
  have c3: "fl (rnd_sample 5 * fl (100 - primaryConfidence rnd_sample)) = 361342232001593 / 2 ^ 45"
    by (simp only: pc r5 f3 g3)
  have c4: "fl (rnd_sample 6 * fl (100 - primaryConfidence rnd_sample)) = 2236763909632803 / 2 ^ 49"
    by (simp only: pc r6 f3 g4)
  have c5: "fl (rnd_sample 7 * fl (100 - primaryConfidence rnd_sample)) = 6191877356351965 / 2 ^ 51"
    by (simp only: pc r7 f3 g5)
  have "all (mockResult rnd_sample) =
          sort_by (\<lambda>a b. confidence b - confidence a)
            (\<lparr>emotion = ''neutral'', confidence = primaryConfidence rnd_sample\<rparr> #
             sort_by (\<lambda>a b. confidence b - confidence a)
               [\<lparr>emotion = ''happy'', confidence = fl (rnd_sample 2 * fl (100 - primaryConfidence rnd_sample))\<rparr>,
                \<lparr>emotion = ''sad'', confidence = fl (rnd_sample 3 * fl (100 - primaryConfidence rnd_sample))\<rparr>,
                \<lparr>emotion = ''angry'', confidence = fl (rnd_sample 4 * fl (100 - primaryConfidence rnd_sample))\<rparr>,
                \<lparr>emotion = ''fearful'', confidence = fl (rnd_sample 5 * fl (100 - primaryConfidence rnd_sample))\<rparr>,
                \<lparr>emotion = ''surprised'', confidence = fl (rnd_sample 6 * fl (100 - primaryConfidence rnd_sample))\<rparr>,
                \<lparr>emotion = ''disgusted'', confidence = fl (rnd_sample 7 * fl (100 - primaryConfidence rnd_sample))\<rparr>])"
    by (simp add: all_mockResult_exact pe emotions_def eval_nat_numeral)
  also have "\<dots> =
          sort_by (\<lambda>a b. confidence b - confidence a)
            (\<lparr>emotion = ''neutral'', confidence = 3100702351065757 / 2 ^ 45\<rparr> #
             sort_by (\<lambda>a b. confidence b - confidence a)
               [\<lparr>emotion = ''happy'', confidence = 3460167820883157 / 2 ^ 50\<rparr>,
                \<lparr>emotion = ''sad'', confidence = 4005982807067791 / 2 ^ 51\<rparr>,
                \<lparr>emotion = ''angry'', confidence = 2400282323532517 / 2 ^ 48\<rparr>,
                \<lparr>emotion = ''fearful'', confidence = 361342232001593 / 2 ^ 45\<rparr>,
                \<lparr>emotion = ''surprised'', confidence = 2236763909632803 / 2 ^ 49\<rparr>,
                \<lparr>emotion = ''disgusted'', confidence = 6191877356351965 / 2 ^ 51\<rparr>])"
    by (simp only: c0 c1 c2 c3 c4 c5) (simp only: pc)
  also have "\<dots> =
          [\<lparr>emotion = ''neutral'', confidence = 3100702351065757 / 2 ^ 45\<rparr>,
           \<lparr>emotion = ''fearful'', confidence = 361342232001593 / 2 ^ 45\<rparr>,
           \<lparr>emotion = ''angry'', confidence = 2400282323532517 / 2 ^ 48\<rparr>,
           \<lparr>emotion = ''surprised'', confidence = 2236763909632803 / 2 ^ 49\<rparr>,
           \<lparr>emotion = ''happy'', confidence = 3460167820883157 / 2 ^ 50\<rparr>,
           \<lparr>emotion = ''disgusted'', confidence = 6191877356351965 / 2 ^ 51\<rparr>,
           \<lparr>emotion = ''sad'', confidence = 4005982807067791 / 2 ^ 51\<rparr>]"
    by (simp add: sort_by_def)
  finally show "all (mockResult rnd_sample) =
     [\<lparr>emotion = ''neutral'', confidence = 3100702351065757 / 2 ^ 45\<rparr>,
      \<lparr>emotion = ''fearful'', confidence = 361342232001593 / 2 ^ 45\<rparr>,
      \<lparr>emotion = ''angry'', confidence = 2400282323532517 / 2 ^ 48\<rparr>,
      \<lparr>emotion = ''surprised'', confidence = 2236763909632803 / 2 ^ 49\<rparr>,
      \<lparr>emotion = ''happy'', confidence = 3460167820883157 / 2 ^ 50\<rparr>,
      \<lparr>emotion = ''disgusted'', confidence = 6191877356351965 / 2 ^ 51\<rparr>,
      \<lparr>emotion = ''sad'', confidence = 4005982807067791 / 2 ^ 51\<rparr>]" .
qed


text \<open>
  Claim C3. Whatever doubles in \<open>[0, 1)\<close> \<open>Math.random()\<close> returns, the list \<open>all\<close> of
  the result built by \<open>handleAnalyze\<close> has exactly seven entries, its labels are those
  of the vocabulary \<open>emotions\<close>, each label occurs exactly once, and every confidence
  lies in \<open>[0, 100]\<close>.
\<close>

theorem mockResult_distribution:
  assumes r: "\<forall>i. is_double (rnd i) \<and> 0 \<le> rnd i \<and> rnd i < 1"
  shows "length (all (mockResult rnd)) = 7 \<and>
         set (map emotion (all (mockResult rnd))) = set emotions \<and>
         (\<forall>l \<in> set emotions. count_list (map emotion (all (mockResult rnd))) l = 1) \<and>
         (\<forall>e \<in> set (all (mockResult rnd)). 0 \<le> confidence e \<and> confidence e \<le> 100)"
proof -
  let ?xs = "all (mockResult rnd)"
  have m: "mset (map emotion ?xs) = mset emotions"
    using r by (intro mset_emotion_all) simp_all
  have len: "length ?xs = 7"
    using r by (intro length_all) simp_all
  have st: "set (map emotion ?xs) = set emotions"
    by (rule mset_eq_setD[OF m])
  have cnt: "count_list (map emotion ?xs) l = 1" if "l \<in> set emotions" for l
  proof -
    have "count_list (map emotion ?xs) l = count (mset (map emotion ?xs)) l"
      by (simp only: count_mset)
    also have "\<dots> = count_list emotions l" by (simp only: m count_mset)
    finally show ?thesis using that by (simp add: count_list_emotions)
  qed
  have rng: "0 \<le> confidence e \<and> confidence e \<le> 100" if "e \<in> set ?xs" for e
  proof (cases "e = primary (mockResult rnd)")
    case True
    then show ?thesis
      using r primaryConfidence_range[of rnd] by (simp add: primary_mockResult)
  next
    case False
    from others_below_primary[OF r that False] r primaryConfidence_range[of rnd]
    show ?thesis by (simp add: primary_mockResult)
  qed
  from len st cnt rng show ?thesis by blast
qed

text \<open>The theorem of C3 at the source \<open>rnd_sample\<close>, with the result it gives there.\<close>

theorem mockResult_distribution_witness:
  "(\<forall>i. is_double (rnd_sample i) \<and> 0 \<le> rnd_sample i \<and> rnd_sample i < 1) \<and>
   all (mockResult rnd_sample) =
     [\<lparr>emotion = ''neutral'', confidence = 3100702351065757 / 2 ^ 45\<rparr>,
      \<lparr>emotion = ''fearful'', confidence = 361342232001593 / 2 ^ 45\<rparr>,
      \<lparr>emotion = ''angry'', confidence = 2400282323532517 / 2 ^ 48\<rparr>,
      \<lparr>emotion = ''surprised'', confidence = 2236763909632803 / 2 ^ 49\<rparr>,
      \<lparr>emotion = ''happy'', confidence = 3460167820883157 / 2 ^ 50\<rparr>,
      \<lparr>emotion = ''disgusted'', confidence = 6191877356351965 / 2 ^ 51\<rparr>,
      \<lparr>emotion = ''sad'', confidence = 4005982807067791 / 2 ^ 51\<rparr>] \<and>
   length (all (mockResult rnd_sample)) = 7 \<and>
   set (map emotion (all (mockResult rnd_sample))) = set emotions \<and>
   count_list (map emotion (all (mockResult rnd_sample))) ''neutral'' = 1 \<and>
   0 \<le> confidence (last (all (mockResult rnd_sample))) \<and>
   confidence (last (all (mockResult rnd_sample))) \<le> 100"
proof -
  note h = rnd_sample_double
  note t = mockResult_distribution[OF h]
  have n: "''neutral'' \<in> set emotions" by (simp add: emotions_def)
  from t have "all (mockResult rnd_sample) \<noteq> []" by auto
  then have m: "last (all (mockResult rnd_sample)) \<in> set (all (mockResult rnd_sample))" by simp
  from h t n m sample_run(2) show ?thesis by blast
qed

lemma first_max_strict:
  "p \<in> set (x # xs) \<Longrightarrow> \<forall>e \<in> set (x # xs). e \<noteq> p \<longrightarrow> confidence e < confidence p \<Longrightarrow>
   first_max x xs = p"
proof (induction xs arbitrary: x)
  case Nil
  then show ?case by simp
next
  case (Cons y ys)
  let ?b = "if confidence y > confidence x then y else x"
  have "p \<in> set (?b # ys)" using Cons.prems by (auto dest: bspec)
  moreover have "\<forall>e \<in> set (?b # ys). e \<noteq> p \<longrightarrow> confidence e < confidence p"
    using Cons.prems(2) by auto
  ultimately have "first_max ?b ys = p" by (rule Cons.IH)
  then show ?case by simp
qed

lemma set_by_vocabulary:
  "set (by_vocabulary es) = {e \<in> set es. emotion e \<in> set emotions}"
  by (auto simp: by_vocabulary_def)

text \<open>
  \<open>spec_primary\<close> on the specification's own example, and on a tie, which goes to the
  label declared first.
\<close>

lemma spec_primary_examples:
  "spec_primary [\<lparr>emotion = ''happy'', confidence = 80\<rparr>, \<lparr>emotion = ''sad'', confidence = 90\<rparr>,
                 \<lparr>emotion = ''angry'', confidence = 10\<rparr>] =
     Some \<lparr>emotion = ''sad'', confidence = 90\<rparr>"
  "spec_primary [\<lparr>emotion = ''sad'', confidence = 50\<rparr>, \<lparr>emotion = ''happy'', confidence = 50\<rparr>] =
     Some \<lparr>emotion = ''happy'', confidence = 50\<rparr>"
  by (simp_all add: spec_primary_def by_vocabulary_def emotions_def)

text \<open>
  Claim C4. The result has seven entries, one per label of the vocabulary; its
  \<open>primary\<close> entry is one of them, no entry has a larger confidence, and it is the one
  the specification's definition selects: the entry of \<open>all\<close> with maximum confidence,
  ties broken by the declaration order of the vocabulary.
\<close>

theorem mockResult_primary_is_max:
  assumes r: "\<forall>i. is_double (rnd i) \<and> 0 \<le> rnd i \<and> rnd i < 1"
  shows "length (all (mockResult rnd)) = 7 \<and>
         set (map emotion (all (mockResult rnd))) = set emotions \<and>
         primary (mockResult rnd) \<in> set (all (mockResult rnd)) \<and>
         (\<forall>e \<in> set (all (mockResult rnd)). confidence e \<le> confidence (primary (mockResult rnd))) \<and>
         spec_primary (all (mockResult rnd)) = Some (primary (mockResult rnd))"
proof -
  let ?p = "primary (mockResult rnd)"
  let ?v = "by_vocabulary (all (mockResult rnd))"
  have len: "length (all (mockResult rnd)) = 7"
    using r by (intro length_all) simp_all
  have "mset (map emotion (all (mockResult rnd))) = mset emotions"
    using r by (intro mset_emotion_all) simp_all
  then have st: "set (map emotion (all (mockResult rnd))) = set emotions"
    by (rule mset_eq_setD)
  have mem: "?p \<in> set (all (mockResult rnd))" by (simp add: set_all)
  have le: "\<forall>e \<in> set (all (mockResult rnd)). confidence e \<le> confidence ?p"
  proof
    fix e assume e: "e \<in> set (all (mockResult rnd))"
    show "confidence e \<le> confidence ?p"
    proof (cases "e = ?p")
      case True
      then show ?thesis by simp
    next
      case False
      from others_below_primary(3)[OF r e False] show ?thesis by simp
    qed
  qed
  have "emotion ?p \<in> set emotions"
    using r primaryEmotion_in[of rnd] by (simp add: primary_mockResult)
  then have pin: "?p \<in> set ?v" by (simp add: set_by_vocabulary set_all)
  have lt: "\<forall>e \<in> set ?v. e \<noteq> ?p \<longrightarrow> confidence e < confidence ?p"
    using others_below_primary(3)[OF r] by (simp add: set_by_vocabulary)
  from pin obtain x xs where v: "?v = x # xs" by (cases ?v) auto
  from pin lt have "first_max x xs = ?p" unfolding v by (rule first_max_strict)
  then have sp: "spec_primary (all (mockResult rnd)) = Some ?p"
    by (simp add: spec_primary_def v)
  from len st mem le sp show ?thesis by blast
qed

text \<open>The theorem of C4 at the source \<open>rnd_falling\<close>, with the result it gives there.\<close>

theorem mockResult_primary_is_max_witness:
  "(\<forall>i. is_double (rnd_falling i) \<and> 0 \<le> rnd_falling i \<and> rnd_falling i < 1) \<and>
   all (mockResult rnd_falling) =
     [\<lparr>emotion = ''fearful'', confidence = 145 / 2\<rparr>,
      \<lparr>emotion = ''happy'', confidence = 55 / 16\<rparr>,
      \<lparr>emotion = ''sad'', confidence = 55 / 32\<rparr>,
      \<lparr>emotion = ''angry'', confidence = 55 / 64\<rparr>,
      \<lparr>emotion = ''neutral'', confidence = 55 / 128\<rparr>,
      \<lparr>emotion = ''surprised'', confidence = 55 / 256\<rparr>,
      \<lparr>emotion = ''disgusted'', confidence = 55 / 512\<rparr>] \<and>
   length (all (mockResult rnd_falling)) = 7 \<and>
   set (map emotion (all (mockResult rnd_falling))) = set emotions \<and>
   primary (mockResult rnd_falling) \<in> set (all (mockResult rnd_falling)) \<and>
   confidence (last (all (mockResult rnd_falling))) \<le> confidence (primary (mockResult rnd_falling)) \<and>
   spec_primary (all (mockResult rnd_falling)) = Some (primary (mockResult rnd_falling))"
proof -
  note h = rnd_falling_double
  note t = mockResult_primary_is_max[OF h]
  have ev: "all (mockResult rnd_falling) =
     [\<lparr>emotion = ''fearful'', confidence = 145 / 2\<rparr>,
      \<lparr>emotion = ''happy'', confidence = 55 / 16\<rparr>,
      \<lparr>emotion = ''sad'', confidence = 55 / 32\<rparr>,
      \<lparr>emotion = ''angry'', confidence = 55 / 64\<rparr>,
      \<lparr>emotion = ''neutral'', confidence = 55 / 128\<rparr>,
      \<lparr>emotion = ''surprised'', confidence = 55 / 256\<rparr>,
      \<lparr>emotion = ''disgusted'', confidence = 55 / 512\<rparr>]"
    by code_simp
  from t have "all (mockResult rnd_falling) \<noteq> []" by auto
  then have l: "last (all (mockResult rnd_falling)) \<in> set (all (mockResult rnd_falling))"
    by simp
  from h t ev l show ?thesis by blast
qed

lemma confidences_rounded:
  "\<forall>e \<in> set (\<lparr>emotion = primaryEmotion rnd, confidence = primaryConfidence rnd\<rparr> #
                otherEmotions rnd). \<exists>u. confidence e = fl u"
proof -
  have "\<exists>u. confidence e = fl u" if "e \<in> set (otherEmotions rnd)" for e
    using that by (auto simp: otherEmotions_def sort_desc_def)
  moreover have "\<exists>u. primaryConfidence rnd = fl u" unfolding primaryConfidence_def by blast
  ultimately show ?thesis by simp
qed

text \<open>
  Claim C10. The list \<open>all\<close> of the result holds the seven entries sorted by
  non-increasing confidence, its first element is the primary entry, the primary
  confidence lies in \<open>[65, 95]\<close>, and every other entry has a confidence strictly below
  100 minus the primary confidence.
\<close>

theorem mockResult_ranking:
  assumes r: "\<forall>i. is_double (rnd i) \<and> 0 \<le> rnd i \<and> rnd i < 1"
  shows "length (all (mockResult rnd)) = 7 \<and>
         sorted_wrt (\<lambda>a b. confidence a \<ge> confidence b) (all (mockResult rnd)) \<and>
         hd (all (mockResult rnd)) = primary (mockResult rnd) \<and>
         65 \<le> confidence (primary (mockResult rnd)) \<and>
         confidence (primary (mockResult rnd)) \<le> 95 \<and>
         (\<forall>e \<in> set (all (mockResult rnd)).
            e \<noteq> primary (mockResult rnd) \<longrightarrow>
            confidence e < 100 - confidence (primary (mockResult rnd)))"
proof -
  let ?p = "primary (mockResult rnd)"
  have len: "length (all (mockResult rnd)) = 7"
    using r by (intro length_all) simp_all
  have srt: "sorted_wrt (\<lambda>a b. confidence a \<ge> confidence b) (all (mockResult rnd))"
    unfolding mockResult_def using sorted_sort_desc[OF confidences_rounded[of rnd]]
    by (simp only: EmotionResult.simps)
  have "\<forall>y \<in> set (sort_by compare_desc (otherEmotions rnd)). compare_desc ?p y \<le> 0"
  proof
    fix y assume "y \<in> set (sort_by compare_desc (otherEmotions rnd))"
    then have y: "y \<in> set (otherEmotions rnd)" by simp
    have "65 \<le> primaryConfidence rnd" using r primaryConfidence_range(1)[of rnd] by simp
    with otherEmotions_confidence(2)[OF r y] have "confidence y - confidence ?p \<le> 0"
      by (simp add: primary_mockResult)
    then show "compare_desc ?p y \<le> 0" unfolding compare_desc_def by (rule fl_nonpos)
  qed
  then have "insert_by compare_desc ?p (sort_by compare_desc (otherEmotions rnd)) =
             ?p # sort_by compare_desc (otherEmotions rnd)"
    by (rule insert_by_front)
  then have "all (mockResult rnd) = ?p # sort_by compare_desc (otherEmotions rnd)"
    by (simp add: mockResult_def sort_desc_def sort_by_Cons)
  then have hd: "hd (all (mockResult rnd)) = ?p" by simp
  have rng: "65 \<le> confidence ?p \<and> confidence ?p \<le> 95"
    using r primaryConfidence_range[of rnd] by (simp add: primary_mockResult)
  have oth: "\<forall>e \<in> set (all (mockResult rnd)). e \<noteq> ?p \<longrightarrow> confidence e < 100 - confidence ?p"
    using others_below_primary(2)[OF r] by blast
  from len srt hd rng oth show ?thesis by blast
qed

text \<open>The theorem of C10 at the source \<open>rnd_rising\<close>, with the result it gives there.\<close>

theorem mockResult_ranking_witness:
  "(\<forall>i. is_double (rnd_rising i) \<and> 0 \<le> rnd_rising i \<and> rnd_rising i < 1) \<and>
   all (mockResult rnd_rising) =
     [\<lparr>emotion = ''happy'', confidence = 275 / 4\<rparr>,
      \<lparr>emotion = ''disgusted'', confidence = 875 / 32\<rparr>,
      \<lparr>emotion = ''surprised'', confidence = 375 / 16\<rparr>,
      \<lparr>emotion = ''neutral'', confidence = 625 / 32\<rparr>,
      \<lparr>emotion = ''fearful'', confidence = 125 / 8\<rparr>,
      \<lparr>emotion = ''angry'', confidence = 375 / 32\<rparr>,
      \<lparr>emotion = ''sad'', confidence = 125 / 16\<rparr>] \<and>
   length (all (mockResult rnd_rising)) = 7 \<and>
   sorted_wrt (\<lambda>a b. confidence a \<ge> confidence b) (all (mockResult rnd_rising)) \<and>
   hd (all (mockResult rnd_rising)) = primary (mockResult rnd_rising) \<and>
   65 \<le> confidence (primary (mockResult rnd_rising)) \<and>
   confidence (primary (mockResult rnd_rising)) \<le> 95 \<and>
   confidence (last (all (mockResult rnd_rising))) <
     100 - confidence (primary (mockResult rnd_rising))"
proof -
  note h = rnd_rising_double
  note t = mockResult_ranking[OF h]
  have ev: "all (mockResult rnd_rising) =
     [\<lparr>emotion = ''happy'', confidence = 275 / 4\<rparr>,
      \<lparr>emotion = ''disgusted'', confidence = 875 / 32\<rparr>,
      \<lparr>emotion = ''surprised'', confidence = 375 / 16\<rparr>,
      \<lparr>emotion = ''neutral'', confidence = 625 / 32\<rparr>,
      \<lparr>emotion = ''fearful'', confidence = 125 / 8\<rparr>,
      \<lparr>emotion = ''angry'', confidence = 375 / 32\<rparr>,
      \<lparr>emotion = ''sad'', confidence = 125 / 16\<rparr>]"
    by code_simp
  have p: "primary (mockResult rnd_rising) = \<lparr>emotion = ''happy'', confidence = 275 / 4\<rparr>"
    by code_simp
  have l: "last (all (mockResult rnd_rising)) \<in> set (all (mockResult rnd_rising))"
    "last (all (mockResult rnd_rising)) \<noteq> primary (mockResult rnd_rising)"
    by (simp_all add: ev p)
  from t l have b: "confidence (last (all (mockResult rnd_rising))) <
     100 - confidence (primary (mockResult rnd_rising))"
    by blast
  from h t ev b show ?thesis by blast
qed

section \<open>Properties of the history\<close>

text \<open>
  The ledger never holds more than ten entries, and after any insertions, at least
  one, it holds the ten most recent of them and of what was there before, newest first.
\<close>

lemma length_record_history: "length (record_history e h) \<le> 10"
  by (simp add: record_history_def)

lemma take_ten_tail: "take 10 (xs @ e # take 9 h) = take 10 (xs @ e # h)"
  by (simp add: take_Cons' min_def)

lemma fold_record_history:
  "es \<noteq> [] \<Longrightarrow> fold record_history es h = take 10 (rev es @ h)"
proof (induction es arbitrary: h)
  case Nil
  then show ?case by simp
next
  case (Cons e es)
  show ?case
  proof (cases "es = []")
    case True
    then show ?thesis by (simp add: record_history_def)
  next
    case False
    have "fold record_history (e # es) h = fold record_history es (e # take 9 h)"
      by (simp add: record_history_def)
    also have "\<dots> = take 10 (rev es @ e # take 9 h)"
      by (rule Cons.IH[OF False])
    also have "\<dots> = take 10 (rev es @ e # h)"
      by (rule take_ten_tail)
    finally show ?thesis by simp
  qed
qed

text \<open>
  Claim C5. \<open>handleAnalyze\<close> prepends the new entry to the history, keeping nine of
  the previous ones. Eleven entries inserted one after the other, into any history,
  leave a list of length ten: the ten inserted last, newest first; the entry inserted
  first is gone (it is not in the list unless a later entry equals it).
\<close>

theorem record_history_eleven:
  "history (handleAnalyze_resume f rnd now app) =
     \<lparr>pred_emotion = primaryEmotion rnd, pred_confidence = primaryConfidence rnd,
      timestamp = now, audioName = file_name f\<rparr> # take 9 (history app) \<and>
   fold record_history [e1, e2, e3, e4, e5, e6, e7, e8, e9, e10, e11] h =
     [e11, e10, e9, e8, e7, e6, e5, e4, e3, e2] \<and>
   length (fold record_history [e1, e2, e3, e4, e5, e6, e7, e8, e9, e10, e11] h) = 10 \<and>
   (e1 \<notin> set [e2, e3, e4, e5, e6, e7, e8, e9, e10, e11] \<longrightarrow>
    e1 \<notin> set (fold record_history [e1, e2, e3, e4, e5, e6, e7, e8, e9, e10, e11] h))"
proof -
  have prepend: "history (handleAnalyze_resume f rnd now app) =
     \<lparr>pred_emotion = primaryEmotion rnd, pred_confidence = primaryConfidence rnd,
      timestamp = now, audioName = file_name f\<rparr> # take 9 (history app)"
    by (simp add: handleAnalyze_resume_def record_history_def)
  have "fold record_history [e1, e2, e3, e4, e5, e6, e7, e8, e9, e10, e11] h =
        take 10 (rev [e1, e2, e3, e4, e5, e6, e7, e8, e9, e10, e11] @ h)"
    by (rule fold_record_history) simp
  then have eleven: "fold record_history [e1, e2, e3, e4, e5, e6, e7, e8, e9, e10, e11] h =
        [e11, e10, e9, e8, e7, e6, e5, e4, e3, e2]"
    by simp
  from prepend eleven show ?thesis by simp
qed

text \<open>The theorem of C5 on eleven predictions with different timestamps.\<close>

theorem record_history_eleven_witness:
  "prediction 1 \<notin> set [prediction 2, prediction 3, prediction 4, prediction 5, prediction 6,
                        prediction 7, prediction 8, prediction 9, prediction 10, prediction 11] \<and>
   fold record_history
     [prediction 1, prediction 2, prediction 3, prediction 4, prediction 5, prediction 6,
      prediction 7, prediction 8, prediction 9, prediction 10, prediction 11] [] =
     [prediction 11, prediction 10, prediction 9, prediction 8, prediction 7, prediction 6,
      prediction 5, prediction 4, prediction 3, prediction 2] \<and>
   prediction 1 \<notin> set (fold record_history
     [prediction 1, prediction 2, prediction 3, prediction 4, prediction 5, prediction 6,
      prediction 7, prediction 8, prediction 9, prediction 10, prediction 11] [])"
proof -
  have d: "prediction 1 \<notin> set [prediction 2, prediction 3, prediction 4, prediction 5,
             prediction 6, prediction 7, prediction 8, prediction 9, prediction 10, prediction 11]"
    by (simp add: prediction_def)
  from d record_history_eleven[of talk_wav rnd_half 0 initial_app
      "prediction 1" "prediction 2" "prediction 3" "prediction 4" "prediction 5" "prediction 6"
      "prediction 7" "prediction 8" "prediction 9" "prediction 10" "prediction 11" "[]"]
  show ?thesis by blast
qed

section \<open>Properties of the upload validator\<close>

lemma song_mp3_extension: "matches_extension (file_name song_mp3)"
proof -
  have "matches_extension ''Song.MP3''" by code_simp
  then show ?thesis by (simp add: song_mp3_def)
qed

lemma big_mp4_format:
  "\<not> matches_extension (file_name big_mp4)" "file_type big_mp4 \<notin> set ACCEPTED_FORMATS"
proof -
  have "\<not> matches_extension ''clip.mp4''" by code_simp
  then show "\<not> matches_extension (file_name big_mp4)" by (simp add: big_mp4_def)
  show "file_type big_mp4 \<notin> set ACCEPTED_FORMATS"
    by (simp add: big_mp4_def ACCEPTED_FORMATS_def)
qed

text \<open>
  Claim C1 as stated fails in its last part: the artifact that is handed on carries no
  duration. \<open>song_mp3\<close> decoded at 180 seconds and decoded at 200 seconds is accepted
  both times, and what \<open>handleFile\<close> leaves behind and passes to \<open>onAudioSelected\<close> is
  the same in both cases: the file and its object URL.
\<close>

theorem validateFile_duration_counterexample:
  "validateFile (constant_probe (LoadedMetadata (Seconds 180))) song_mp3 idle_upload =
     (Some True, idle_upload) \<and>
   validateFile (constant_probe (LoadedMetadata (Seconds 200))) song_mp3 idle_upload =
     (Some True, idle_upload) \<and>
   handleFile (constant_probe (LoadedMetadata (Seconds 180))) song_mp3 (idle_upload, initial_app) =
     handleFile (constant_probe (LoadedMetadata (Seconds 200))) song_mp3 (idle_upload, initial_app) \<and>
   snd (handleFile (constant_probe (LoadedMetadata (Seconds 180))) song_mp3
          (idle_upload, initial_app)) =
     initial_app\<lparr>audioFile := Some song_mp3, audioUrl := Some (ObjectURL song_mp3)\<rparr>"
proof -
  have v: "validateFile (constant_probe (LoadedMetadata (Seconds 180))) song_mp3 idle_upload =
             (Some True, idle_upload)"
    "validateFile (constant_probe (LoadedMetadata (Seconds 200))) song_mp3 idle_upload =
             (Some True, idle_upload)"
    using song_mp3_extension
    by (simp_all add: validateFile_def constant_probe_def MAX_FILE_SIZE_def MAX_DURATION_def
        idle_upload_def song_mp3_def)
  then show ?thesis
    by (simp add: handleFile_def handleAudioSelected_def initial_app_def)
qed

text \<open>
  Claim C1, amended. For a file that passes the format and size checks and whose
  metadata load with duration \<open>d\<close>: \<open>validateFile\<close> resolves to \<open>false\<close> with the
  message of \<open>TooLong\<close> when \<open>d > 300\<close>, to \<open>false\<close> with the message of \<open>TooShort\<close>
  when \<open>d < 0.5\<close>, and nothing is handed on in either case; it resolves to \<open>true\<close>
  with no error when \<open>0.5 \<le> d \<le> 300\<close>, and \<open>handleFile\<close> then selects the file and
  hands on the file and its object URL, in which \<open>d\<close> does not occur.
\<close>

theorem validateFile_duration_outcome:
  assumes fmt: "file_type f \<in> set ACCEPTED_FORMATS \<or> matches_extension (file_name f)"
    and sz: "file_size f \<le> MAX_FILE_SIZE"
    and dec: "probe f = LoadedMetadata (Seconds d)"
  shows "(d > 300 \<longrightarrow>
            validateFile probe f st = (Some False, st\<lparr>upload_error := Some (message TooLong)\<rparr>) \<and>
            handleFile probe f (st, app) = (st\<lparr>upload_error := Some (message TooLong)\<rparr>, app)) \<and>
         (d < 1 / 2 \<longrightarrow>
            validateFile probe f st = (Some False, st\<lparr>upload_error := Some (message TooShort)\<rparr>) \<and>
            handleFile probe f (st, app) = (st\<lparr>upload_error := Some (message TooShort)\<rparr>, app)) \<and>
         (1 / 2 \<le> d \<and> d \<le> 300 \<longrightarrow>
            validateFile probe f st = (Some True, st\<lparr>upload_error := None\<rparr>) \<and>
            handleFile probe f (st, app) =
              (st\<lparr>upload_error := None, selectedFile := Some f\<rparr>,
               app\<lparr>audioFile := Some f, audioUrl := Some (ObjectURL f), result := None\<rparr>))"
  using assms
  by (auto simp: validateFile_def handleFile_def handleAudioSelected_def MAX_DURATION_def Let_def)

text \<open>The amended C1 on \<open>song_mp3\<close> at 301, 0.25 and 180 seconds.\<close>

theorem validateFile_duration_outcome_witness:
  "matches_extension (file_name song_mp3) \<and> file_size song_mp3 \<le> MAX_FILE_SIZE \<and>
   validateFile (constant_probe (LoadedMetadata (Seconds 301))) song_mp3 idle_upload =
     (Some False, idle_upload\<lparr>upload_error := Some (message TooLong)\<rparr>) \<and>
   validateFile (constant_probe (LoadedMetadata (Seconds (1 / 4)))) song_mp3 idle_upload =
     (Some False, idle_upload\<lparr>upload_error := Some (message TooShort)\<rparr>) \<and>
   validateFile (constant_probe (LoadedMetadata (Seconds 180))) song_mp3 idle_upload =
     (Some True, idle_upload\<lparr>upload_error := None\<rparr>) \<and>
   handleFile (constant_probe (LoadedMetadata (Seconds 180))) song_mp3 (idle_upload, initial_app) =
     (idle_upload\<lparr>upload_error := None, selectedFile := Some song_mp3\<rparr>,
      initial_app\<lparr>audioFile := Some song_mp3, audioUrl := Some (ObjectURL song_mp3),
                  result := None\<rparr>)"
proof -
  have sz: "file_size song_mp3 \<le> MAX_FILE_SIZE"
    by (simp add: song_mp3_def MAX_FILE_SIZE_def)
  have fmt: "file_type song_mp3 \<in> set ACCEPTED_FORMATS \<or> matches_extension (file_name song_mp3)"
    by (simp add: song_mp3_extension)
  have long: "constant_probe (LoadedMetadata (Seconds 301)) song_mp3 = LoadedMetadata (Seconds 301)"
    and short: "constant_probe (LoadedMetadata (Seconds (1 / 4))) song_mp3 = LoadedMetadata (Seconds (1 / 4))"
    and ok: "constant_probe (LoadedMetadata (Seconds 180)) song_mp3 = LoadedMetadata (Seconds 180)"
    by (simp_all add: constant_probe_def)
  note t = validateFile_duration_outcome[of song_mp3 _ _ idle_upload initial_app, OF fmt sz]
  show ?thesis
    using t[of "constant_probe (LoadedMetadata (Seconds 301))" 301, OF long]
      t[of "constant_probe (LoadedMetadata (Seconds (1 / 4)))" "1 / 4", OF short]
      t[of "constant_probe (LoadedMetadata (Seconds 180))" 180, OF ok]
      song_mp3_extension sz
    by simp
qed

text \<open>
  The two durations that are not numbers of seconds: an unbounded stream is too long,
  and \<open>NaN\<close>, for which both comparisons are false, is accepted.
\<close>

lemma validateFile_unbounded_nan:
  assumes "file_type f \<in> set ACCEPTED_FORMATS \<or> matches_extension (file_name f)"
    and "file_size f \<le> MAX_FILE_SIZE"
  shows "probe f = LoadedMetadata Unbounded \<Longrightarrow>
           validateFile probe f st = (Some False, st\<lparr>upload_error := Some (message TooLong)\<rparr>)"
    and "probe f = LoadedMetadata NotANumber \<Longrightarrow>
           validateFile probe f st = (Some True, st\<lparr>upload_error := None\<rparr>)"
  using assms by (auto simp: validateFile_def Let_def)

text \<open>
  Claim C2 as stated fails: \<open>big_mp4\<close> is larger than 50 MiB, and is rejected as an
  unsupported format, not as too large, since the format check runs first.
\<close>

theorem validateFile_too_large_counterexample:
  "file_size big_mp4 > MAX_FILE_SIZE \<and>
   validateFile (constant_probe ErrorEvent) big_mp4 idle_upload =
     (Some False, idle_upload\<lparr>upload_error := Some (message UnsupportedFormat)\<rparr>) \<and>
   validateFile (constant_probe ErrorEvent) big_mp4 idle_upload \<noteq>
     (Some False, idle_upload\<lparr>upload_error := Some (message FileTooLarge)\<rparr>)"
proof -
  note m = big_mp4_format(1) and t = big_mp4_format(2)
  have v: "validateFile (constant_probe ErrorEvent) big_mp4 idle_upload =
     (Some False, idle_upload\<lparr>upload_error := Some (message UnsupportedFormat)\<rparr>)"
    using m t by (simp add: validateFile_def idle_upload_def)
  have s: "file_size big_mp4 > MAX_FILE_SIZE" by (simp add: big_mp4_def MAX_FILE_SIZE_def)
  from v s show ?thesis by (simp add: idle_upload_def message.simps)
qed

text \<open>
  Claim C2, amended. A file larger than 50 MiB is always rejected, before the decoder
  is consulted and without a call of \<open>onAudioSelected\<close>: with the message of
  \<open>FileTooLarge\<close> when its media type or its extension is accepted, and with the
  message of \<open>UnsupportedFormat\<close> when neither is.
\<close>

theorem validateFile_too_large:
  assumes "file_size f > MAX_FILE_SIZE"
  shows "(file_type f \<in> set ACCEPTED_FORMATS \<or> matches_extension (file_name f) \<longrightarrow>
            validateFile probe f st = (Some False, st\<lparr>upload_error := Some (message FileTooLarge)\<rparr>)) \<and>
         (file_type f \<notin> set ACCEPTED_FORMATS \<and> \<not> matches_extension (file_name f) \<longrightarrow>
            validateFile probe f st = (Some False, st\<lparr>upload_error := Some (message UnsupportedFormat)\<rparr>)) \<and>
         handleFile probe f (st, app) = (snd (validateFile probe f st), app)"
  using assms by (auto simp: validateFile_def handleFile_def Let_def)

text \<open>The amended C2 on \<open>big_wav\<close> and on \<open>big_mp4\<close>.\<close>

theorem validateFile_too_large_witness:
  "file_size big_wav > MAX_FILE_SIZE \<and> file_type big_wav \<in> set ACCEPTED_FORMATS \<and>
   validateFile (constant_probe (LoadedMetadata (Seconds 180))) big_wav idle_upload =
     (Some False, idle_upload\<lparr>upload_error := Some (message FileTooLarge)\<rparr>) \<and>
   file_size big_mp4 > MAX_FILE_SIZE \<and> file_type big_mp4 \<notin> set ACCEPTED_FORMATS \<and>
   \<not> matches_extension (file_name big_mp4) \<and>
   validateFile (constant_probe (LoadedMetadata (Seconds 180))) big_mp4 idle_upload =
     (Some False, idle_upload\<lparr>upload_error := Some (message UnsupportedFormat)\<rparr>)"
proof -
  have s1: "file_size big_wav > MAX_FILE_SIZE" by (simp add: big_wav_def MAX_FILE_SIZE_def)
  have t1: "file_type big_wav \<in> set ACCEPTED_FORMATS" by (simp add: big_wav_def ACCEPTED_FORMATS_def)
  have s2: "file_size big_mp4 > MAX_FILE_SIZE" by (simp add: big_mp4_def MAX_FILE_SIZE_def)
  note t2 = big_mp4_format(2) and m2 = big_mp4_format(1)
  show ?thesis
    using validateFile_too_large[OF s1, of "constant_probe (LoadedMetadata (Seconds 180))" idle_upload initial_app]
      validateFile_too_large[OF s2, of "constant_probe (LoadedMetadata (Seconds 180))" idle_upload initial_app]
      s1 t1 s2 t2 m2
    by simp
qed

lemma message_inj: "message a = message b \<Longrightarrow> a = b"
  by (cases a; cases b; simp add: message.simps)

text \<open>
  Claim C8. When \<open>validateFile\<close> resolves to \<open>false\<close>, \<open>handleFile\<close> does nothing
  more: \<open>onAudioSelected\<close> is not called (the state of \<open>App\<close> is unchanged, so a later
  \<open>handleAnalyze\<close> works on what it worked on before), the selected file is left as it
  was, and the error shown is the message of one \<open>ValidationError\<close>.
\<close>

theorem handleFile_rejection:
  assumes "fst (validateFile probe f st) = Some False"
  shows "handleFile probe f (st, app) = (snd (validateFile probe f st), app) \<and>
         selectedFile (fst (handleFile probe f (st, app))) = selectedFile st \<and>
         (\<exists>e. upload_error (fst (handleFile probe f (st, app))) = Some (message e)) \<and>
         handleAnalyze_begin (snd (handleFile probe f (st, app))) = handleAnalyze_begin app"
proof -
  have h: "handleFile probe f (st, app) = (snd (validateFile probe f st), app)"
    using assms by (cases "validateFile probe f st") (simp add: handleFile_def)
  have s: "selectedFile (snd (validateFile probe f st)) = selectedFile st"
    by (simp add: validateFile_def Let_def split: media_event.splits)
  have e: "\<exists>e. upload_error (snd (validateFile probe f st)) = Some (message e)"
    using assms by (auto simp: validateFile_def Let_def split: media_event.splits if_splits)
  from h s e show ?thesis by simp
qed

text \<open>The theorem of C8 on \<open>talk_wav\<close> with a decoder that reports an error.\<close>

theorem handleFile_rejection_witness:
  "fst (validateFile (constant_probe ErrorEvent) talk_wav idle_upload) = Some False \<and>
   handleFile (constant_probe ErrorEvent) talk_wav (idle_upload, initial_app) =
     (idle_upload\<lparr>upload_error := Some (message DecodeFailed)\<rparr>, initial_app)"
proof -
  have v: "validateFile (constant_probe ErrorEvent) talk_wav idle_upload =
             (Some False, idle_upload\<lparr>upload_error := Some (message DecodeFailed)\<rparr>)"
    by (simp add: validateFile_def constant_probe_def talk_wav_def ACCEPTED_FORMATS_def
        MAX_FILE_SIZE_def idle_upload_def)
  then have r: "fst (validateFile (constant_probe ErrorEvent) talk_wav idle_upload) = Some False"
    by simp
  from handleFile_rejection[OF r, of initial_app] v r show ?thesis by simp
qed

section \<open>A selection made while an analysis is outstanding\<close>

text \<open>
  Claim C9 as stated fails: in \<open>superseded_app\<close> the analysis of \<open>talk_wav\<close> is
  outstanding and \<open>song_mp3\<close> has been selected, which cleared the result; when the
  analysis resumes, its result is stored and shown with \<open>song_mp3\<close> current.
\<close>

theorem stale_result_counterexample:
  "fst (handleAnalyze_begin (handleAudioSelected talk_wav (ObjectURL talk_wav) initial_app)) =
     Some talk_wav \<and>
   audioFile superseded_app = Some song_mp3 \<and>
   result superseded_app = None \<and>
   audioFile (handleAnalyze_resume talk_wav rnd_half 5 superseded_app) = Some song_mp3 \<and>
   result (handleAnalyze_resume talk_wav rnd_half 5 superseded_app) = Some (mockResult rnd_half) \<and>
   result (handleAnalyze_resume talk_wav rnd_half 5 superseded_app) \<noteq> result superseded_app"
  by (simp add: superseded_app_def handleAnalyze_begin_def handleAudioSelected_def
      handleAnalyze_resume_def initial_app_def)

text \<open>
  Claim C9, amended. Selecting a new file while an analysis is outstanding replaces the
  current file and URL and clears the result; the outstanding call is not cancelled.
  When it resumes it leaves the newer file and URL as they are, stores its result as
  the current result, and prepends a history entry under the name of the file it was
  started for.
\<close>

theorem stale_result_kept:
  assumes "audioFile app = Some f"
  shows "fst (handleAnalyze_begin app) = Some f \<and>
         audioFile (handleAudioSelected g url (snd (handleAnalyze_begin app))) = Some g \<and>
         result (handleAudioSelected g url (snd (handleAnalyze_begin app))) = None \<and>
         audioFile (handleAnalyze_resume f rnd now
                      (handleAudioSelected g url (snd (handleAnalyze_begin app)))) = Some g \<and>
         audioUrl (handleAnalyze_resume f rnd now
                     (handleAudioSelected g url (snd (handleAnalyze_begin app)))) = Some url \<and>
         result (handleAnalyze_resume f rnd now
                   (handleAudioSelected g url (snd (handleAnalyze_begin app)))) =
           Some (mockResult rnd) \<and>
         history (handleAnalyze_resume f rnd now
                    (handleAudioSelected g url (snd (handleAnalyze_begin app)))) =
           \<lparr>pred_emotion = primaryEmotion rnd, pred_confidence = primaryConfidence rnd,
            timestamp = now, audioName = file_name f\<rparr> # take 9 (history app)"
  using assms
  by (simp add: handleAnalyze_begin_def handleAudioSelected_def handleAnalyze_resume_def
      record_history_def)

text \<open>The amended C9 on \<open>talk_wav\<close> superseded by \<open>song_mp3\<close>.\<close>

theorem stale_result_kept_witness:
  "audioFile (handleAudioSelected talk_wav (ObjectURL talk_wav) initial_app) = Some talk_wav \<and>
   audioFile (handleAnalyze_resume talk_wav rnd_falling 7 superseded_app) = Some song_mp3 \<and>
   result (handleAnalyze_resume talk_wav rnd_falling 7 superseded_app) = Some (mockResult rnd_falling) \<and>
   map audioName (history (handleAnalyze_resume talk_wav rnd_falling 7 superseded_app)) = [''talk.wav'']"
proof -
  have h: "audioFile (handleAudioSelected talk_wav (ObjectURL talk_wav) initial_app) = Some talk_wav"
    by (simp add: handleAudioSelected_def)
  have e: "history (handleAudioSelected talk_wav (ObjectURL talk_wav) initial_app) = []"
    by (simp add: handleAudioSelected_def initial_app_def)
  from stale_result_kept[OF h, of song_mp3 "ObjectURL song_mp3" rnd_falling 7] h e
  show ?thesis by (simp add: superseded_app_def talk_wav_def)
qed

section \<open>Properties of the capture session\<close>

lemma recording_session_eq:
  "recording_session =
     \<lparr>isRecording = True, recordingTime = 0, audioBlob = None, recorder_error = None,
      permissionGranted = True, mediaRecorderRef = Some 0, chunksRef = [], timerRef = Some 0,
      streamRef = Some 0, pendingStarts = [], streams = [True],
      recorders = [\<lparr>rec_stream = 0, rec_status = Recording\<rparr>],
      timers = [\<lparr>timer_active = True, closure_isRecording = False\<rparr>], emitted = []\<rparr>"
  by (simp add: recording_session_def run_recorder_def mounted_recorder_def
      checkMicrophonePermission_def click_record_button_def startRecording_begin_def
      startRecording_resume_def)

lemma stale_ticks:
  "k \<le> 300 \<Longrightarrow>
   fold recorder_step (replicate n (Tick 0)) (recording_session\<lparr>recordingTime := k\<rparr>) =
     recording_session\<lparr>recordingTime := min (k + n) 300\<rparr>"
proof (induction n arbitrary: k)
  case 0
  then show ?case by simp
next
  case (Suc n)
  show ?case
  proof (cases "k = 300")
    case True
    have "timer_tick 0 (recording_session\<lparr>recordingTime := 300\<rparr>) =
          recording_session\<lparr>recordingTime := 300\<rparr>"
      by (simp add: recording_session_eq timer_tick_def MAX_RECORDING_TIME_def stopRecording_def)
    with True Suc.IH[of 300] show ?thesis by simp
  next
    case False
    with Suc.prems have lt: "k < 300" by simp
    then have "timer_tick 0 (recording_session\<lparr>recordingTime := k\<rparr>) =
          recording_session\<lparr>recordingTime := Suc k\<rparr>"
      by (simp add: recording_session_eq timer_tick_def MAX_RECORDING_TIME_def)
    with lt Suc.IH[of "Suc k"] show ?thesis by simp
  qed
qed

lemma overrun_session_eq: "overrun_session = recording_session\<lparr>recordingTime := 300\<rparr>"
proof -
  have "recording_session\<lparr>recordingTime := 0\<rparr> = recording_session"
    by (simp add: recording_session_eq)
  with stale_ticks[of 0 301] show ?thesis
    by (simp add: overrun_session_def run_recorder_def)
qed

text \<open>
  Claim C6 on the code. After a start from the record button, 301 firings of the timer
  bring the counter to 300 and call the \<open>stopRecording\<close> of the timer's closure, whose
  \<open>isRecording\<close> is \<open>false\<close>: the recorder is still recording, the timer still
  active, the stream still live and nothing has been emitted. A click on the button in
  that state, followed by the recorder's \<open>stop\<close> event, does stop the recorder, clear
  the timer, release the stream and emit one file.
\<close>

theorem auto_stop_never_finalizes:
  "recordingTime overrun_session = 300 \<and>
   isRecording overrun_session \<and>
   map rec_status (recorders overrun_session) = [Recording] \<and>
   map timer_active (timers overrun_session) = [True] \<and>
   timerRef overrun_session = Some 0 \<and>
   streams overrun_session = [True] \<and>
   emitted overrun_session = [] \<and>
   \<not> isRecording (run_recorder [ClickRecord, StopEvent 0 42] overrun_session) \<and>
   map rec_status (recorders (run_recorder [ClickRecord, StopEvent 0 42] overrun_session)) = [Inactive] \<and>
   map timer_active (timers (run_recorder [ClickRecord, StopEvent 0 42] overrun_session)) = [False] \<and>
   timerRef (run_recorder [ClickRecord, StopEvent 0 42] overrun_session) = None \<and>
   streams (run_recorder [ClickRecord, StopEvent 0 42] overrun_session) = [False] \<and>
   length (emitted (run_recorder [ClickRecord, StopEvent 0 42] overrun_session)) = 1"
  by (simp add: overrun_session_eq recording_session_eq run_recorder_def click_record_button_def
      stopRecording_def mediaRecorder_stop_def onstop_def Let_def)

text \<open>
  Claim C7 on the code. A second click on the record button while the first call of
  \<open>startRecording\<close> still waits for its stream starts a second call: both acquire a
  stream, no error is set, and two streams, two recorders and two timers are live.
  The refs hold the second of each only, so a stop releases the second stream,
  recorder and timer and leaves the first stream live, the first recorder recording
  and the first timer running; after a single start the same stop releases everything.
\<close>

theorem double_start_acquires_two_streams:
  "pendingStarts (run_recorder [ClickRecord, ClickRecord] mounted_recorder) = [False, False] \<and>
   streams double_started = [True, True] \<and>
   map rec_status (recorders double_started) = [Recording, Recording] \<and>
   map timer_active (timers double_started) = [True, True] \<and>
   streamRef double_started = Some 1 \<and>
   mediaRecorderRef double_started = Some 1 \<and>
   timerRef double_started = Some 1 \<and>
   recorder_error double_started = None \<and>
   streams (run_recorder [ClickRecord, StopEvent 1 42] double_started) = [True, False] \<and>
   map rec_status (recorders (run_recorder [ClickRecord, StopEvent 1 42] double_started)) =
     [Recording, Inactive] \<and>
   map timer_active (timers (run_recorder [ClickRecord, StopEvent 1 42] double_started)) =
     [True, False] \<and>
   length (emitted (run_recorder [ClickRecord, StopEvent 1 42] double_started)) = 1 \<and>
   streams (run_recorder [ClickRecord, StopEvent 0 42] recording_session) = [False] \<and>
   map rec_status (recorders (run_recorder [ClickRecord, StopEvent 0 42] recording_session)) =
     [Inactive] \<and>
   map timer_active (timers (run_recorder [ClickRecord, StopEvent 0 42] recording_session)) =
     [False]"
  by (simp add: double_started_def recording_session_def run_recorder_def mounted_recorder_def
      checkMicrophonePermission_def click_record_button_def startRecording_begin_def
      startRecording_resume_def stopRecording_def mediaRecorder_stop_def onstop_def Let_def)

text \<open>
  The guard the component has: in a session that is recording with no call of
  \<open>startRecording\<close> waiting, the record button calls \<open>stopRecording\<close>, not
  \<open>startRecording\<close>, and no event requests or acquires a stream. It does not cover a
  call that is still waiting for its stream.
\<close>

lemma record_button_while_recording:
  assumes "isRecording st" and "pendingStarts st = []"
  shows "(click_record_button st = stopRecording True st \<or> click_record_button st = st) \<and>
         length (streams (recorder_step ev st)) = length (streams st) \<and>
         pendingStarts (recorder_step ev st) = []"
  using assms
  by (cases ev)
    (auto simp: click_record_button_def stopRecording_def startRecording_resume_def
      startRecording_failed_def ondataavailable_def timer_tick_def onstop_def handleClear_def
      Let_def split: option.splits)

end
